theory Spec2Isabelle
  imports Main
begin

section \<open>Data model\<close>

subsection \<open>Rows of the relational store\<close>

text \<open>
  The columns of \<open>gameSessions\<close>, \<open>userStats\<close>, \<open>pointTransactions\<close> and
  \<open>accessLogs\<close> that the solver route and the access service read or write. A table is the list of
  its rows in storage order, so that \<open>select ... where\<close> is a \<open>filter\<close> and
  \<open>sessions[0]\<close> is the head of the selected rows.
\<close>

record game_session =
  gs_userId :: string
  gs_board :: string
  gs_level :: int
  gs_puzzleType :: string
  gs_puzzleId :: string
  gs_hintUsed :: bool
  gs_hintsCount :: int

record user_stats =
  us_userId :: string
  us_totalPoints :: int
  us_updatedAt :: nat

record hint_metadata =
  md_techniqueLevel :: int
  md_puzzleLevel :: int
  md_puzzleType :: string
  md_puzzleId :: string

record point_transaction =
  pt_userId :: string
  pt_points :: int
  pt_transactionType :: string
  pt_metadata :: hint_metadata

record access_log =
  al_user_id :: string
  al_endpoint :: string
  al_access_date :: string

subsection \<open>The solver's query and answer\<close>

record solve_query =
  sq_original :: string
  sq_user :: string
  sq_autopencilmarks :: string
  sq_pencilmarks :: string
  sq_techniques :: "string option"

record solver_error =
  se_code :: string
  se_message :: string

text \<open>
  \<open>sd_hints_level\<close> is the value of \<open>data.hints?.level\<close>: \<open>None\<close> when the answer has
  no \<open>hints\<close> object (or the object has no level). \<open>sd_payload\<close> stands for the rest of
  the solver's data, which the handler passes through untouched.
\<close>

record solve_data =
  sd_hints_level :: "int option"
  sd_payload :: string

record solver_response =
  sr_success :: bool
  sr_error :: "solver_error option"
  sr_data :: "solve_data option"

text \<open>What \<open>fetch\<close> can do: reject, be aborted by the timer, or answer with a status and a
  body (\<open>None\<close>: the body is not JSON).\<close>

datatype fetch_outcome =
    FetchRejected
  | FetchAborted
  | FetchResponse nat "solver_response option"

datatype thrown =
    SolverServiceError nat
  | SolverServiceTimeout nat
  | FetchFailed
  | BodyNotJson
  | StoreUnavailable

subsection \<open>The store, the calls made on it, and the environment of one request\<close>

datatype db_op =
    SelectGameSessions
  | UpdateGameSessions
  | SelectUserStats
  | UpdateUserStats
  | InsertUserStats
  | InsertPointTransactions
  | CountAccessLogs
  | InsertAccessLogs

datatype event = SolverCall solve_query | DbCall db_op

record store =
  gameSessions :: "game_session list"
  userStats :: "user_stats list"
  pointTransactions :: "point_transaction list"
  accessLogs :: "access_log list"
  calls :: "event list"

text \<open>
  The environment fixes what the code cannot decide: what \<open>fetch\<close> answers to a query,
  which store calls throw, the clock (\<open>new Date()\<close>), the schema default of
  \<open>userStats.updatedAt\<close> for a row inserted without it, and the date the clock shows
  when the access count is taken and when an access is recorded.
\<close>

record env =
  fetch :: "solve_query \<Rightarrow> fetch_outcome"
  storeFails :: "db_op \<Rightarrow> bool"
  now :: nat
  defaultUpdatedAt :: nat
  dateAtCount :: string
  dateAtRecord :: string

subsection \<open>Access decisions, requests and responses\<close>

datatype user_state = Anonymous | Free | Blue_belt | Red_belt | Admin

text \<open>
  Modelled from the spec: the type \<open>HintAccessContext\<close> is declared in
  \<open>middleware/hintAccess\<close>, which is not among the sources. The spec gives a decision a
  user state and a maximum hint level, which is a number or unbounded (the tier of
  administrators and \<open>red_belt\<close> holders).
\<close>

datatype hint_cap = Level int | Unbounded

record hint_access =
  maxHintLevel :: hint_cap
  userState :: user_state

record firebase_user =
  uid :: string

text \<open>The query parameters of \<open>GET /solve\<close> (\<open>None\<close>: the parameter is absent) and the
  two context variables the handler reads.\<close>

record request =
  query_original :: "string option"
  query_user :: "string option"
  query_autopencilmarks :: "string option"
  query_pencilmarks :: "string option"
  query_techniques :: "string option"
  ctx_hintAccess :: "hint_access option"
  ctx_firebaseUser :: "firebase_user option"

record points_earned =
  pe_points :: int
  pe_techniqueLevel :: int

record hint_denial =
  hd_code :: string
  hd_hintLevel :: int
  hd_requiredEntitlement :: "string option"
  hd_userState :: user_state
  hd_timestamp :: nat

text \<open>\<open>Success\<close> is \<open>successResponse(data)\<close>, with the \<open>points\<close> field when it was
  added; \<open>Failure\<close> is \<open>errorResponse(message)\<close>; \<open>HintAccessDenied\<close> is the
  \<open>HintAccessDeniedResponse\<close> object (its free-text message is left out).\<close>

datatype body =
    Success solve_data "points_earned option"
  | Failure string
  | HintAccessDenied hint_denial

record response =
  status :: nat
  body :: body

record track_result =
  tracked :: bool
  hintPoints :: int

section \<open>Store calls\<close>

text \<open>Every call on the store is recorded in \<open>calls\<close>; a call that throws changes no table.\<close>

definition dbCall :: "env \<Rightarrow> db_op \<Rightarrow> (store \<Rightarrow> store \<times> 'a) \<Rightarrow> store \<Rightarrow> store \<times> (thrown + 'a)" where
  "dbCall e op run s =
     (let s' = s\<lparr>calls := calls s @ [DbCall op]\<rparr>
      in if storeFails e op then (s', Inl StoreUnavailable)
         else (case run s' of (s'', v) \<Rightarrow> (s'', Inr v)))"

definition selectGameSessions :: "env \<Rightarrow> string \<Rightarrow> store \<Rightarrow> store \<times> (thrown + game_session list)" where
  "selectGameSessions e userId =
     dbCall e SelectGameSessions (\<lambda>s. (s, filter (\<lambda>r. gs_userId r = userId) (gameSessions s)))"

definition updateGameSessions :: "env \<Rightarrow> string \<Rightarrow> int \<Rightarrow> store \<Rightarrow> store \<times> (thrown + unit)" where
  "updateGameSessions e userId n =
     dbCall e UpdateGameSessions
       (\<lambda>s. (s\<lparr>gameSessions :=
                  map (\<lambda>r. if gs_userId r = userId
                            then r\<lparr>gs_hintUsed := True, gs_hintsCount := n\<rparr> else r)
                      (gameSessions s)\<rparr>, ()))"

definition selectUserStats :: "env \<Rightarrow> string \<Rightarrow> store \<Rightarrow> store \<times> (thrown + user_stats list)" where
  "selectUserStats e userId =
     dbCall e SelectUserStats (\<lambda>s. (s, filter (\<lambda>r. us_userId r = userId) (userStats s)))"

definition updateUserStats :: "env \<Rightarrow> string \<Rightarrow> int \<Rightarrow> store \<Rightarrow> store \<times> (thrown + unit)" where
  "updateUserStats e userId totalPoints =
     dbCall e UpdateUserStats
       (\<lambda>s. (s\<lparr>userStats :=
                  map (\<lambda>r. if us_userId r = userId
                            then r\<lparr>us_totalPoints := totalPoints, us_updatedAt := now e\<rparr> else r)
                      (userStats s)\<rparr>, ()))"

definition insertUserStats :: "env \<Rightarrow> string \<Rightarrow> int \<Rightarrow> store \<Rightarrow> store \<times> (thrown + unit)" where
  "insertUserStats e userId totalPoints =
     dbCall e InsertUserStats
       (\<lambda>s. (s\<lparr>userStats := userStats s @
                  [\<lparr>us_userId = userId, us_totalPoints = totalPoints,
                    us_updatedAt = defaultUpdatedAt e\<rparr>]\<rparr>, ()))"

definition insertPointTransactions :: "env \<Rightarrow> point_transaction \<Rightarrow> store \<Rightarrow> store \<times> (thrown + unit)" where
  "insertPointTransactions e row =
     dbCall e InsertPointTransactions
       (\<lambda>s. (s\<lparr>pointTransactions := pointTransactions s @ [row]\<rparr>, ()))"

section \<open>trackHintUsage\<close>

definition notTracked :: track_result where
  "notTracked = \<lparr>tracked = False, hintPoints = 0\<rparr>"

text \<open>The body of the \<open>try\<close> block: a thrown store call ends it with \<open>Inl\<close>.\<close>

definition trackHintUsage_try ::
  "env \<Rightarrow> string \<Rightarrow> string \<Rightarrow> int \<Rightarrow> store \<Rightarrow> store \<times> (thrown + track_result)" where
  "trackHintUsage_try e userId originalBoard techniqueLevel s0 =
     (case selectGameSessions e userId s0 of
        (s1, Inl x) \<Rightarrow> (s1, Inl x)
      | (s1, Inr sessions) \<Rightarrow>
          (case sessions of
             [] \<Rightarrow> (s1, Inr notTracked)
           | session # _ \<Rightarrow>
               if gs_board session \<noteq> originalBoard then (s1, Inr notTracked)
               else
                 let hintPoints = 2 * techniqueLevel in
                 (case updateGameSessions e userId (gs_hintsCount session + 1) s1 of
                    (s2, Inl x) \<Rightarrow> (s2, Inl x)
                  | (s2, Inr _) \<Rightarrow>
                      (case selectUserStats e userId s2 of
                         (s3, Inl x) \<Rightarrow> (s3, Inl x)
                       | (s3, Inr existingStats) \<Rightarrow>
                           (case (case existingStats of
                                    st # _ \<Rightarrow>
                                      updateUserStats e userId (us_totalPoints st + hintPoints) s3
                                  | [] \<Rightarrow> insertUserStats e userId hintPoints s3) of
                              (s4, Inl x) \<Rightarrow> (s4, Inl x)
                            | (s4, Inr _) \<Rightarrow>
                                (case insertPointTransactions e
                                        \<lparr>pt_userId = userId, pt_points = hintPoints,
                                         pt_transactionType = ''hint_used'',
                                         pt_metadata =
                                           \<lparr>md_techniqueLevel = techniqueLevel,
                                            md_puzzleLevel = gs_level session,
                                            md_puzzleType = gs_puzzleType session,
                                            md_puzzleId = gs_puzzleId session\<rparr>\<rparr> s4 of
                                   (s5, Inl x) \<Rightarrow> (s5, Inl x)
                                 | (s5, Inr _) \<Rightarrow>
                                     (s5, Inr \<lparr>tracked = True, hintPoints = hintPoints\<rparr>)))))))"

text \<open>The \<open>catch\<close> block: whatever was thrown, the answer is "not tracked".\<close>

definition trackHintUsage ::
  "env \<Rightarrow> string \<Rightarrow> string \<Rightarrow> int \<Rightarrow> store \<Rightarrow> store \<times> track_result" where
  "trackHintUsage e userId originalBoard techniqueLevel s =
     (case trackHintUsage_try e userId originalBoard techniqueLevel s of
        (s', Inl _) \<Rightarrow> (s', notTracked)
      | (s', Inr r) \<Rightarrow> (s', r))"

section \<open>The solver proxy\<close>

definition SOLVER_TIMEOUT_MS :: nat where
  "SOLVER_TIMEOUT_MS = 120000"

definition DEFAULT_AUTOPENCILMARKS :: string where
  "DEFAULT_AUTOPENCILMARKS = ''false''"

text \<open>The two constants of the types package, as the route's documentation gives them: 81
  zeros, and 81 empty elements separated by commas.\<close>

definition EMPTY_BOARD :: string where
  "EMPTY_BOARD = replicate 81 (CHR ''0'')"

definition EMPTY_PENCILMARKS :: string where
  "EMPTY_PENCILMARKS = replicate 80 (CHR '','')"

definition response_ok :: "nat \<Rightarrow> bool" where
  "response_ok st = (200 \<le> st \<and> st \<le> 299)"

text \<open>
  \<open>proxySolverRequest\<close> on the \<open>solve\<close> endpoint: a status outside 2xx throws, an abort
  by the timer throws the timeout error, any other rejection is thrown again, and a body
  that is not JSON rejects the returned promise.
\<close>

definition proxySolverRequest :: "env \<Rightarrow> solve_query \<Rightarrow> thrown + solver_response" where
  "proxySolverRequest e q =
     (case fetch e q of
        FetchResponse st b \<Rightarrow>
          if \<not> response_ok st then Inl (SolverServiceError st)
          else (case b of None \<Rightarrow> Inl BodyNotJson | Some r \<Rightarrow> Inr r)
      | FetchAborted \<Rightarrow> Inl (SolverServiceTimeout (SOLVER_TIMEOUT_MS div 1000))
      | FetchRejected \<Rightarrow> Inl FetchFailed)"

text \<open>JavaScript truthiness of an optional string: absent and empty are both false.\<close>

definition truthy :: "string option \<Rightarrow> bool" where
  "truthy v = (case v of None \<Rightarrow> False | Some x \<Rightarrow> x \<noteq> [])"

definition callSolver ::
  "env \<Rightarrow> string \<Rightarrow> string \<Rightarrow> string \<Rightarrow> string \<Rightarrow> string option \<Rightarrow> store
     \<Rightarrow> store \<times> (thrown + solver_response)" where
  "callSolver e original user autopencilmarks pencilmarks techniques s =
     (let q = \<lparr>sq_original = original, sq_user = user, sq_autopencilmarks = autopencilmarks,
               sq_pencilmarks = pencilmarks,
               sq_techniques = (if truthy techniques then techniques else None)\<rparr>
      in (s\<lparr>calls := calls s @ [SolverCall q]\<rparr>, proxySolverRequest e q))"

section \<open>handleSolveRequest\<close>

text \<open>\<open>hintLevel > hintAccess.maxHintLevel\<close>: no number is above an unbounded maximum.\<close>

definition exceeds :: "int \<Rightarrow> hint_cap \<Rightarrow> bool" where
  "exceeds hintLevel cap = (case cap of Level m \<Rightarrow> hintLevel > m | Unbounded \<Rightarrow> False)"

text \<open>
  Modelled from the spec: \<open>getRequiredEntitlement\<close> is imported from
  \<open>middleware/hintAccess\<close>, which is not among the sources. The spec derives it from the
  hint level by the inverse of the tier table: level at most 3, no entitlement required;
  level 4 to 5, \<open>blue_belt\<close>; level above 5, \<open>red_belt\<close>.
\<close>

definition getRequiredEntitlement :: "int \<Rightarrow> string option" where
  "getRequiredEntitlement hintLevel =
     (if hintLevel \<le> 3 then None
      else if hintLevel \<le> 5 then Some ''blue_belt''
      else Some ''red_belt'')"

text \<open>The operator \<open>??\<close>: the default replaces an absent value only.\<close>

definition orElse :: "'a option \<Rightarrow> 'a \<Rightarrow> 'a" where
  "orElse v d = (case v of None \<Rightarrow> d | Some x \<Rightarrow> x)"

text \<open>The solver stage: the filtered call and its fallback, or the one generic call.\<close>

definition solveWithFallback ::
  "env \<Rightarrow> string \<Rightarrow> string \<Rightarrow> string \<Rightarrow> string \<Rightarrow> string option \<Rightarrow> store
     \<Rightarrow> store \<times> (thrown + solver_response)" where
  "solveWithFallback e original user autopencilmarks pencilmarks techniques s0 =
     (if truthy techniques then
        (case callSolver e original user autopencilmarks pencilmarks techniques s0 of
           (s1, Inl x) \<Rightarrow> (s1, Inl x)
         | (s1, Inr result) \<Rightarrow>
             if \<not> sr_success result \<or> sr_data result = None
                \<or> (case sr_data result of
                      Some d \<Rightarrow> sd_hints_level d = Some 0 | None \<Rightarrow> False)
             then callSolver e original user autopencilmarks pencilmarks None s1
             else (s1, Inr result))
      else callSolver e original user autopencilmarks pencilmarks None s0)"

definition solverErrorMessage :: "solver_response \<Rightarrow> string" where
  "solverErrorMessage result =
     (case sr_error result of
        Some err \<Rightarrow> se_code err @ '': '' @ se_message err
      | None \<Rightarrow> ''Solver error'')"

text \<open>The body of the handler's \<open>try\<close> block.\<close>

definition handleSolveRequest_try ::
  "env \<Rightarrow> request \<Rightarrow> store \<Rightarrow> store \<times> (thrown + response)" where
  "handleSolveRequest_try e c s0 =
     (let original = orElse (query_original c) [];
          user = orElse (query_user c) EMPTY_BOARD;
          autopencilmarks = orElse (query_autopencilmarks c) DEFAULT_AUTOPENCILMARKS;
          pencilmarks = orElse (query_pencilmarks c) EMPTY_PENCILMARKS;
          techniques = query_techniques c
      in case solveWithFallback e original user autopencilmarks pencilmarks techniques s0 of
           (s1, Inl x) \<Rightarrow> (s1, Inl x)
         | (s1, Inr result) \<Rightarrow>
             (case (sr_success result, sr_data result) of
                (True, Some dat) \<Rightarrow>
                  let hintAccess = ctx_hintAccess c;
                      hintLevel = orElse (sd_hints_level dat) 0
                  in if (case hintAccess of
                           Some ha \<Rightarrow> exceeds hintLevel (maxHintLevel ha) | None \<Rightarrow> False)
                     then
                       (s1, Inr \<lparr>status = 402,
                                 body = HintAccessDenied
                                   \<lparr>hd_code = ''HINT_ACCESS_DENIED'',
                                    hd_hintLevel = hintLevel,
                                    hd_requiredEntitlement = getRequiredEntitlement hintLevel,
                                    hd_userState =
                                      (case hintAccess of Some ha \<Rightarrow> userState ha
                                       | None \<Rightarrow> Anonymous),
                                    hd_timestamp = now e\<rparr>\<rparr>)
                     else
                       let firebaseUser = ctx_firebaseUser c;
                           techniqueLevel = orElse (sd_hints_level dat) 1
                       in (case (case firebaseUser of
                                   Some fu \<Rightarrow>
                                     if uid fu \<noteq> [] then
                                       (case trackHintUsage e (uid fu) original techniqueLevel s1 of
                                          (s2, r) \<Rightarrow>
                                            (s2, if tracked r
                                                 then Some \<lparr>pe_points = hintPoints r,
                                                            pe_techniqueLevel = techniqueLevel\<rparr>
                                                 else None))
                                     else (s1, None)
                                 | None \<Rightarrow> (s1, None)) of
                             (s2, pointsEarned) \<Rightarrow>
                               (s2, Inr \<lparr>status = 200, body = Success dat pointsEarned\<rparr>))
              | _ \<Rightarrow> (s1, Inr \<lparr>status = 400, body = Failure (solverErrorMessage result)\<rparr>)))"

text \<open>The handler's \<open>catch\<close> block: anything thrown becomes the 503 answer.\<close>

definition handleSolveRequest :: "env \<Rightarrow> request \<Rightarrow> store \<Rightarrow> store \<times> response" where
  "handleSolveRequest e c s =
     (case handleSolveRequest_try e c s of
        (s', Inl _) \<Rightarrow> (s', \<lparr>status = 503, body = Failure ''Solver service unavailable''\<rparr>)
      | (s', Inr resp) \<Rightarrow> (s', resp))"

section \<open>The daily access limit\<close>

text \<open>
  What indexing the table \<open>DAILY_LIMITS\<close> can give besides \<open>undefined\<close>: a number the
  table lists, or a member the object literal inherits from \<open>Object.prototype\<close> (a
  function, or the prototype itself for \<open>__proto__\<close>), which is not a number.
\<close>

datatype table_value = NumberValue int | InheritedMember

text \<open>A JavaScript number as the result's \<open>remaining\<close> field holds it.\<close>

datatype js_number = Num int | NaN

record access_result =
  granted :: bool
  remaining :: js_number

text \<open>The property names every object literal inherits from \<open>Object.prototype\<close>.\<close>

definition objectPrototypeNames :: "string list" where
  "objectPrototypeNames =
     [''constructor'', ''toString'', ''toLocaleString'', ''valueOf'', ''hasOwnProperty'',
      ''isPrototypeOf'', ''propertyIsEnumerable'', ''__proto__'', ''__defineGetter__'',
      ''__defineSetter__'', ''__lookupGetter__'', ''__lookupSetter__'']"

text \<open>
  \<open>DAILY_LIMITS[endpoint]\<close>: the table's own entries first, then the prototype's members;
  \<open>None\<close> is \<open>undefined\<close>.
\<close>

definition DAILY_LIMITS :: "string \<Rightarrow> table_value option" where
  "DAILY_LIMITS endpoint =
     (case map_of [(''boards'', 2), (''dailies'', 2), (''challenges'', 2), (''solve'', 10)]
             endpoint of
        Some n \<Rightarrow> Some (NumberValue n)
      | None \<Rightarrow> if endpoint \<in> set objectPrototypeNames then Some InheritedMember else None)"

definition DEFAULT_DAILY_LIMIT :: int where
  "DEFAULT_DAILY_LIMIT = 2"

definition getDailyLimit :: "string \<Rightarrow> table_value" where
  "getDailyLimit endpoint = orElse (DAILY_LIMITS endpoint) (NumberValue DEFAULT_DAILY_LIMIT)"

text \<open>
  \<open>accessCount >= limit\<close> and \<open>limit - accessCount - 1\<close> on a limit that may not be a
  number: an inherited member converts to NaN, every comparison with NaN is false, and
  arithmetic on NaN gives NaN.
\<close>

definition reachesLimit :: "int \<Rightarrow> table_value \<Rightarrow> bool" where
  "reachesLimit accessCount limit =
     (case limit of NumberValue n \<Rightarrow> accessCount \<ge> n | InheritedMember \<Rightarrow> False)"

definition remainingAfter :: "table_value \<Rightarrow> int \<Rightarrow> js_number" where
  "remainingAfter limit accessCount =
     (case limit of NumberValue n \<Rightarrow> Num (n - accessCount - 1) | InheritedMember \<Rightarrow> NaN)"

text \<open>\<open>getTodayDate\<close> reads the clock in each of the two store functions; the environment
  gives the date it shows at each read.\<close>

definition getAccessCountToday :: "env \<Rightarrow> string \<Rightarrow> string \<Rightarrow> store \<Rightarrow> store \<times> (thrown + int)" where
  "getAccessCountToday e userId endpoint =
     (let today = dateAtCount e
      in dbCall e CountAccessLogs
           (\<lambda>s. (s, int (length (filter (\<lambda>r. al_user_id r = userId \<and> al_endpoint r = endpoint
                                              \<and> al_access_date r = today) (accessLogs s))))))"

definition recordAccess :: "env \<Rightarrow> string \<Rightarrow> string \<Rightarrow> store \<Rightarrow> store \<times> (thrown + unit)" where
  "recordAccess e userId endpoint =
     (let today = dateAtRecord e
      in dbCall e InsertAccessLogs
           (\<lambda>s. (s\<lparr>accessLogs := accessLogs s @
                      [\<lparr>al_user_id = userId, al_endpoint = endpoint, al_access_date = today\<rparr>]\<rparr>,
                  ())))"

text \<open>Nothing is caught here: a store call that throws ends the function with \<open>Inl\<close>.\<close>

definition checkAndRecordAccess ::
  "env \<Rightarrow> string \<Rightarrow> string \<Rightarrow> store \<Rightarrow> store \<times> (thrown + access_result)" where
  "checkAndRecordAccess e userId endpoint s0 =
     (let limit = getDailyLimit endpoint
      in case getAccessCountToday e userId endpoint s0 of
           (s1, Inl x) \<Rightarrow> (s1, Inl x)
         | (s1, Inr accessCount) \<Rightarrow>
             if reachesLimit accessCount limit
             then (s1, Inr \<lparr>granted = False, remaining = Num 0\<rparr>)
             else (case recordAccess e userId endpoint s1 of
                     (s2, Inl x) \<Rightarrow> (s2, Inl x)
                   | (s2, Inr _) \<Rightarrow>
                       (s2, Inr \<lparr>granted = True,
                                 remaining = remainingAfter limit accessCount\<rparr>)))"

section \<open>The access-tier resolver\<close>

text \<open>
  Modelled from the spec: the resolver is \<open>hintAccessMiddleware\<close> of
  \<open>middleware/hintAccess\<close>, which is not among the sources. Its input is the caller as
  the spec's policy table sees it: no credential, a credential that failed verification
  without failing the request, or a verified identity with its administrator flag and the
  outcome of the entitlement lookup.
\<close>

datatype entitlement_lookup = LookupFailed | Entitlements "string list"

datatype caller =
    NoCredential
  | Unverified
  | Verified bool entitlement_lookup

text \<open>
  Modelled from the spec: the policy table in priority order, the first match winning,
  and the degraded decision when the entitlement lookup fails.
\<close>

definition hintAccessCheck :: "caller \<Rightarrow> hint_access" where
  "hintAccessCheck c =
     (case c of
        Verified isSiteAdmin lookup \<Rightarrow>
          if isSiteAdmin then \<lparr>maxHintLevel = Unbounded, userState = Admin\<rparr>
          else (case lookup of
                  Entitlements es \<Rightarrow>
                    if ''red_belt'' \<in> set es then \<lparr>maxHintLevel = Unbounded, userState = Red_belt\<rparr>
                    else if ''blue_belt'' \<in> set es
                      then \<lparr>maxHintLevel = Level 5, userState = Blue_belt\<rparr>
                    else \<lparr>maxHintLevel = Level 3, userState = Free\<rparr>
                | LookupFailed \<Rightarrow> \<lparr>maxHintLevel = Level 3, userState = Free\<rparr>)
      | _ \<Rightarrow> \<lparr>maxHintLevel = Level 3, userState = Anonymous\<rparr>)"

text \<open>
  Modelled from the spec: the tier table of its testable properties, one maximum per
  user state (admin and \<open>red_belt\<close> unbounded, \<open>blue_belt\<close> 5, free and anonymous 3).
\<close>

definition tierMaxHintLevel :: "user_state \<Rightarrow> hint_cap" where
  "tierMaxHintLevel st =
     (case st of
        Admin \<Rightarrow> Unbounded
      | Red_belt \<Rightarrow> Unbounded
      | Blue_belt \<Rightarrow> Level 5
      | Free \<Rightarrow> Level 3
      | Anonymous \<Rightarrow> Level 3)"

section \<open>Observations and sample inputs\<close>

text \<open>The total the code reads for a user: \<open>existingStats[0].totalPoints\<close>, and 0 when the
  user has no row.\<close>

definition totalPointsOf :: "string \<Rightarrow> store \<Rightarrow> int" where
  "totalPointsOf userId s =
     (case filter (\<lambda>r. us_userId r = userId) (userStats s) of
        [] \<Rightarrow> 0 | st # _ \<Rightarrow> us_totalPoints st)"

definition hintLevelOf :: "solve_data \<Rightarrow> int" where
  "hintLevelOf dat = orElse (sd_hints_level dat) 0"

text \<open>The query \<open>callSolver\<close> sends for a request, with the handler's defaults filled in.\<close>

definition queryOf :: "request \<Rightarrow> string option \<Rightarrow> solve_query" where
  "queryOf c techniques =
     \<lparr>sq_original = orElse (query_original c) [],
      sq_user = orElse (query_user c) EMPTY_BOARD,
      sq_autopencilmarks = orElse (query_autopencilmarks c) DEFAULT_AUTOPENCILMARKS,
      sq_pencilmarks = orElse (query_pencilmarks c) EMPTY_PENCILMARKS,
      sq_techniques = techniques\<rparr>"

text \<open>The solver stage of the handler on a request: what reaches the check of
  \<open>result.success\<close> and \<open>result.data\<close>.\<close>

definition solverStage :: "env \<Rightarrow> request \<Rightarrow> store \<Rightarrow> store \<times> (thrown + solver_response)" where
  "solverStage e c s =
     solveWithFallback e (orElse (query_original c) []) (orElse (query_user c) EMPTY_BOARD)
       (orElse (query_autopencilmarks c) DEFAULT_AUTOPENCILMARKS)
       (orElse (query_pencilmarks c) EMPTY_PENCILMARKS) (query_techniques c) s"

text \<open>The condition under which the filtered answer is replaced by a generic call.\<close>

definition needsFallback :: "solver_response \<Rightarrow> bool" where
  "needsFallback result =
     (\<not> sr_success result \<or> sr_data result = None
      \<or> (case sr_data result of Some d \<Rightarrow> sd_hints_level d = Some 0 | None \<Rightarrow> False))"

text \<open>The condition of the 402 branch: \<open>hintAccess && hintLevel > hintAccess.maxHintLevel\<close>.\<close>

definition denied :: "request \<Rightarrow> solve_data \<Rightarrow> bool" where
  "denied c dat =
     (case ctx_hintAccess c of
        Some ha \<Rightarrow> exceeds (hintLevelOf dat) (maxHintLevel ha) | None \<Rightarrow> False)"

text \<open>The condition \<open>firebaseUser?.uid\<close>, and the user id it yields.\<close>

definition uidOf :: "request \<Rightarrow> string option" where
  "uidOf c =
     (case ctx_firebaseUser c of
        Some fu \<Rightarrow> if uid fu \<noteq> [] then Some (uid fu) else None
      | None \<Rightarrow> None)"

text \<open>The calls a run added to the store's record, and the solver queries among calls.\<close>

definition newCalls :: "store \<Rightarrow> store \<Rightarrow> event list" where
  "newCalls s s' = drop (length (calls s)) (calls s')"

fun solverQueries :: "event list \<Rightarrow> solve_query list" where
  "solverQueries [] = []"
| "solverQueries (SolverCall q # es) = q # solverQueries es"
| "solverQueries (DbCall _ # es) = solverQueries es"

fun dbOps :: "event list \<Rightarrow> db_op list" where
  "dbOps [] = []"
| "dbOps (SolverCall _ # es) = dbOps es"
| "dbOps (DbCall op # es) = op # dbOps es"

definition tablesOf ::
  "store \<Rightarrow> game_session list \<times> user_stats list \<times> point_transaction list \<times> access_log list" where
  "tablesOf s = (gameSessions s, userStats s, pointTransactions s, accessLogs s)"

definition isThrown :: "thrown + 'a \<Rightarrow> bool" where
  "isThrown v = (case v of Inl _ \<Rightarrow> True | Inr _ \<Rightarrow> False)"

text \<open>The store calls a tracked hint takes, in the order the code issues them: the stats
  row is updated when the user has one and created otherwise.\<close>

definition trackingOps :: "string \<Rightarrow> store \<Rightarrow> db_op list" where
  "trackingOps userId s =
     [SelectGameSessions, UpdateGameSessions, SelectUserStats,
      if filter (\<lambda>r. us_userId r = userId) (userStats s) = []
      then InsertUserStats else UpdateUserStats,
      InsertPointTransactions]"

text \<open>The store a tracked hint leaves, for the session the code read and the points it
  computed.\<close>

definition afterTrackedHint ::
  "env \<Rightarrow> string \<Rightarrow> int \<Rightarrow> game_session \<Rightarrow> store \<Rightarrow> store" where
  "afterTrackedHint e userId techniqueLevel session s =
     s\<lparr>gameSessions :=
          map (\<lambda>x. if gs_userId x = userId
                    then x\<lparr>gs_hintUsed := True, gs_hintsCount := gs_hintsCount session + 1\<rparr>
                    else x) (gameSessions s),
        userStats :=
          (case filter (\<lambda>x. us_userId x = userId) (userStats s) of
             st # _ \<Rightarrow>
               map (\<lambda>x. if us_userId x = userId
                         then x\<lparr>us_totalPoints := us_totalPoints st + 2 * techniqueLevel,
                                us_updatedAt := now e\<rparr>
                         else x) (userStats s)
           | [] \<Rightarrow> userStats s @
               [\<lparr>us_userId = userId, us_totalPoints = 2 * techniqueLevel,
                 us_updatedAt = defaultUpdatedAt e\<rparr>]),
        pointTransactions := pointTransactions s @
          [\<lparr>pt_userId = userId, pt_points = 2 * techniqueLevel,
            pt_transactionType = ''hint_used'',
            pt_metadata = \<lparr>md_techniqueLevel = techniqueLevel, md_puzzleLevel = gs_level session,
                           md_puzzleType = gs_puzzleType session,
                           md_puzzleId = gs_puzzleId session\<rparr>\<rparr>],
        calls := calls s @ map DbCall (trackingOps userId s)\<rparr>"

text \<open>The number of rows the count query of \<open>getAccessCountToday\<close> sees.\<close>

definition accessCountToday :: "env \<Rightarrow> string \<Rightarrow> string \<Rightarrow> store \<Rightarrow> int" where
  "accessCountToday e userId endpoint s =
     int (length (filter (\<lambda>r. al_user_id r = userId \<and> al_endpoint r = endpoint
                                \<and> al_access_date r = dateAtCount e) (accessLogs s)))"

definition sampleBoard :: string where
  "sampleBoard =
     ''530070000600195000098000060800060003400803001700020006060000280000419005000080079''"

definition otherBoard :: string where
  "otherBoard =
     ''000070000600195000098000060800060003400803001700020006060000280000419005000080079''"

definition sampleSession :: game_session where
  "sampleSession =
     \<lparr>gs_userId = ''u1'', gs_board = sampleBoard, gs_level = 4, gs_puzzleType = ''daily'',
      gs_puzzleId = ''2024-05-01'', gs_hintUsed = False, gs_hintsCount = 0\<rparr>"

definition sampleStore :: store where
  "sampleStore =
     \<lparr>gameSessions = [sampleSession],
      userStats = [\<lparr>us_userId = ''u1'', us_totalPoints = 40, us_updatedAt = 7\<rparr>],
      pointTransactions = [],
      accessLogs = [\<lparr>al_user_id = ''u1'', al_endpoint = ''boards'', al_access_date = ''2024-05-01''\<rparr>],
      calls = []\<rparr>"

text \<open>The sample store before the user has any stats row, and after two accesses to an
  endpoint named \<open>constructor\<close>.\<close>

definition freshStore :: store where
  "freshStore = sampleStore\<lparr>userStats := []\<rparr>"

definition inheritedNameStore :: store where
  "inheritedNameStore =
     sampleStore\<lparr>accessLogs :=
       [\<lparr>al_user_id = ''u1'', al_endpoint = ''constructor'', al_access_date = ''2024-05-01''\<rparr>,
        \<lparr>al_user_id = ''u1'', al_endpoint = ''constructor'', al_access_date = ''2024-05-01''\<rparr>]\<rparr>"

text \<open>A solver that answers every query with a hint of the given level, or, when the query
  carries a technique filter, with a hint of the level given for filtered queries.\<close>

definition hintOfLevel :: "int option \<Rightarrow> solver_response" where
  "hintOfLevel l =
     \<lparr>sr_success = True, sr_error = None,
      sr_data = Some \<lparr>sd_hints_level = l, sd_payload = ''board''\<rparr>\<rparr>"

definition sampleEnv :: "fetch_outcome \<Rightarrow> fetch_outcome \<Rightarrow> (db_op \<Rightarrow> bool) \<Rightarrow> env" where
  "sampleEnv filtered generic fails =
     \<lparr>fetch = (\<lambda>q. if sq_techniques q = None then generic else filtered),
      storeFails = fails, now = 1714550000, defaultUpdatedAt = 1714550000,
      dateAtCount = ''2024-05-01'', dateAtRecord = ''2024-05-01''\<rparr>"

definition sampleRequest :: "string option \<Rightarrow> hint_access option \<Rightarrow> firebase_user option \<Rightarrow> request" where
  "sampleRequest techniques access user =
     \<lparr>query_original = Some sampleBoard, query_user = None, query_autopencilmarks = None,
      query_pencilmarks = None, query_techniques = techniques,
      ctx_hintAccess = access, ctx_firebaseUser = user\<rparr>"

section \<open>Auxiliary facts\<close>


lemmas store_ops = dbCall_def selectGameSessions_def updateGameSessions_def selectUserStats_def
  updateUserStats_def insertUserStats_def insertPointTransactions_def

lemmas sample_defs = sampleStore_def sampleSession_def sampleEnv_def sampleRequest_def
  sampleBoard_def otherBoard_def hintOfLevel_def

lemmas track_defs = trackHintUsage_def trackHintUsage_try_def store_ops Let_def notTracked_def

lemmas handler_defs = handleSolveRequest_def handleSolveRequest_try_def solveWithFallback_def
  callSolver_def proxySolverRequest_def truthy_def orElse_def exceeds_def response_ok_def
  getRequiredEntitlement_def solverErrorMessage_def

lemma trackHintUsage_unmatched:
  assumes "case filter (\<lambda>x. gs_userId x = userId) (gameSessions s) of
             [] \<Rightarrow> True | session # _ \<Rightarrow> gs_board session \<noteq> originalBoard"
  shows "trackHintUsage e userId originalBoard techniqueLevel s =
           (s\<lparr>calls := calls s @ [DbCall SelectGameSessions]\<rparr>, notTracked)"
proof (cases "filter (\<lambda>x. gs_userId x = userId) (gameSessions s)")
  case Nil
  then show ?thesis
    by (simp add: trackHintUsage_def trackHintUsage_try_def store_ops Let_def)
next
  case (Cons session rest)
  with assms have "gs_board session \<noteq> originalBoard" by simp
  with Cons show ?thesis
    by (simp add: trackHintUsage_def trackHintUsage_try_def store_ops Let_def)
qed

lemma trackHintUsage_tracked:
  assumes "trackHintUsage e userId originalBoard techniqueLevel s = (s', r)" and "tracked r"
  shows "\<exists>session rest.
       filter (\<lambda>x. gs_userId x = userId) (gameSessions s) = session # rest
     \<and> gs_board session = originalBoard
     \<and> hintPoints r = 2 * techniqueLevel
     \<and> gameSessions s' =
         map (\<lambda>x. if gs_userId x = userId
                   then x\<lparr>gs_hintUsed := True, gs_hintsCount := gs_hintsCount session + 1\<rparr>
                   else x) (gameSessions s)
     \<and> userStats s' =
         (case filter (\<lambda>x. us_userId x = userId) (userStats s) of
            st # _ \<Rightarrow>
              map (\<lambda>x. if us_userId x = userId
                        then x\<lparr>us_totalPoints := us_totalPoints st + hintPoints r,
                               us_updatedAt := now e\<rparr>
                        else x) (userStats s)
          | [] \<Rightarrow> userStats s @
              [\<lparr>us_userId = userId, us_totalPoints = hintPoints r,
                us_updatedAt = defaultUpdatedAt e\<rparr>])
     \<and> pointTransactions s' = pointTransactions s @
           [\<lparr>pt_userId = userId, pt_points = hintPoints r, pt_transactionType = ''hint_used'',
             pt_metadata = \<lparr>md_techniqueLevel = techniqueLevel, md_puzzleLevel = gs_level session,
                            md_puzzleType = gs_puzzleType session,
                            md_puzzleId = gs_puzzleId session\<rparr>\<rparr>]
     \<and> accessLogs s' = accessLogs s
     \<and> calls s' = calls s @
           [DbCall SelectGameSessions, DbCall UpdateGameSessions, DbCall SelectUserStats,
            DbCall (if filter (\<lambda>x. us_userId x = userId) (userStats s) = []
                    then InsertUserStats else UpdateUserStats),
            DbCall InsertPointTransactions]"
  using assms
  by (auto simp add: trackHintUsage_def trackHintUsage_try_def store_ops Let_def notTracked_def
       split: list.splits if_splits)

lemma totalPointsOf_update:
  "filter (\<lambda>x. us_userId x = userId) rows = st # rest \<Longrightarrow>
   (case filter (\<lambda>x. us_userId x = userId)
           (map (\<lambda>x. if us_userId x = userId then x\<lparr>us_totalPoints := t, us_updatedAt := n\<rparr> else x) rows) of
      [] \<Rightarrow> 0 | st' # _ \<Rightarrow> us_totalPoints st') = t"
proof (induction rows)
  case Nil
  then show ?case by simp
next
  case (Cons a rows)
  then show ?case by (cases "us_userId a = userId") auto
qed

lemma trackHintUsage_total_delta:
  assumes "trackHintUsage e userId originalBoard techniqueLevel s = (s', r)" and "tracked r"
  shows "totalPointsOf userId s' = totalPointsOf userId s + hintPoints r"
proof -
  from trackHintUsage_tracked [OF assms]
  have us: "userStats s' =
         (case filter (\<lambda>x. us_userId x = userId) (userStats s) of
            st # _ \<Rightarrow>
              map (\<lambda>x. if us_userId x = userId
                        then x\<lparr>us_totalPoints := us_totalPoints st + hintPoints r,
                               us_updatedAt := now e\<rparr>
                        else x) (userStats s)
          | [] \<Rightarrow> userStats s @
              [\<lparr>us_userId = userId, us_totalPoints = hintPoints r,
                us_updatedAt = defaultUpdatedAt e\<rparr>])"
    by blast
  show ?thesis
  proof (cases "filter (\<lambda>x. us_userId x = userId) (userStats s)")
    case Nil
    with us show ?thesis by (simp add: totalPointsOf_def)
  next
    case (Cons st rest)
    with us totalPointsOf_update [OF Cons] show ?thesis
      by (simp add: totalPointsOf_def)
  qed
qed

lemma handleSolveRequest_try_stage:
  "handleSolveRequest_try e c s =
     (case solverStage e c s of
        (s1, Inl x) \<Rightarrow> (s1, Inl x)
      | (s1, Inr result) \<Rightarrow>
          (case (sr_success result, sr_data result) of
             (True, Some dat) \<Rightarrow>
               if (case ctx_hintAccess c of
                     Some ha \<Rightarrow> exceeds (hintLevelOf dat) (maxHintLevel ha) | None \<Rightarrow> False)
               then (s1, Inr \<lparr>status = 402,
                              body = HintAccessDenied
                                \<lparr>hd_code = ''HINT_ACCESS_DENIED'',
                                 hd_hintLevel = hintLevelOf dat,
                                 hd_requiredEntitlement = getRequiredEntitlement (hintLevelOf dat),
                                 hd_userState =
                                   (case ctx_hintAccess c of Some ha \<Rightarrow> userState ha
                                    | None \<Rightarrow> Anonymous),
                                 hd_timestamp = now e\<rparr>\<rparr>)
               else (case uidOf c of
                       Some u \<Rightarrow>
                         (case trackHintUsage e u (orElse (query_original c) [])
                                 (orElse (sd_hints_level dat) 1) s1 of
                            (s2, r) \<Rightarrow>
                              (s2, Inr \<lparr>status = 200,
                                        body = Success dat
                                          (if tracked r
                                           then Some \<lparr>pe_points = hintPoints r,
                                                      pe_techniqueLevel = orElse (sd_hints_level dat) 1\<rparr>
                                           else None)\<rparr>))
                     | None \<Rightarrow> (s1, Inr \<lparr>status = 200, body = Success dat None\<rparr>))
           | _ \<Rightarrow> (s1, Inr \<lparr>status = 400, body = Failure (solverErrorMessage result)\<rparr>)))"
  by (simp add: handleSolveRequest_try_def solverStage_def hintLevelOf_def uidOf_def Let_def
        split: prod.splits sum.splits option.splits bool.splits)


lemma solverStage_generic:
  assumes "\<not> truthy (query_techniques c)"
  shows "solverStage e c s =
           (s\<lparr>calls := calls s @ [SolverCall (queryOf c None)]\<rparr>,
            proxySolverRequest e (queryOf c None))"
  using assms
  by (simp add: solverStage_def solveWithFallback_def callSolver_def queryOf_def truthy_def Let_def)

lemma solverStage_filtered:
  assumes "truthy (query_techniques c)"
  shows "solverStage e c s =
           (case proxySolverRequest e (queryOf c (query_techniques c)) of
              Inl x \<Rightarrow> (s\<lparr>calls := calls s @ [SolverCall (queryOf c (query_techniques c))]\<rparr>, Inl x)
            | Inr r \<Rightarrow>
                if needsFallback r
                then (s\<lparr>calls := calls s @ [SolverCall (queryOf c (query_techniques c)),
                                               SolverCall (queryOf c None)]\<rparr>,
                      proxySolverRequest e (queryOf c None))
                else (s\<lparr>calls := calls s @ [SolverCall (queryOf c (query_techniques c))]\<rparr>, Inr r))"
  using assms
  by (simp add: solverStage_def solveWithFallback_def callSolver_def queryOf_def truthy_def
        needsFallback_def Let_def split: sum.splits)

lemma solverQueries_append: "solverQueries (xs @ ys) = solverQueries xs @ solverQueries ys"
  by (induction xs rule: solverQueries.induct) simp_all

lemma dbOps_append: "dbOps (xs @ ys) = dbOps xs @ dbOps ys"
  by (induction xs rule: dbOps.induct) simp_all

lemma solverQueries_DbCalls: "solverQueries (map DbCall ops) = []"
  by (induction ops) simp_all

lemma dbOps_DbCalls: "dbOps (map DbCall ops) = ops"
  by (induction ops) simp_all

lemma newCalls_append: "calls s' = calls s @ xs \<Longrightarrow> newCalls s s' = xs"
  by (simp add: newCalls_def)

lemma trackHintUsage_calls:
  "\<exists>ops. calls (fst (trackHintUsage e u b l s)) = calls s @ map DbCall ops"
proof -
  have "calls (fst (trackHintUsage e u b l s)) = calls s @ map DbCall [SelectGameSessions]
      \<or> calls (fst (trackHintUsage e u b l s)) = calls s @ map DbCall [SelectGameSessions, UpdateGameSessions]
      \<or> calls (fst (trackHintUsage e u b l s)) = calls s @ map DbCall [SelectGameSessions, UpdateGameSessions, SelectUserStats]
      \<or> calls (fst (trackHintUsage e u b l s)) = calls s @ map DbCall [SelectGameSessions, UpdateGameSessions, SelectUserStats, UpdateUserStats]
      \<or> calls (fst (trackHintUsage e u b l s)) = calls s @ map DbCall [SelectGameSessions, UpdateGameSessions, SelectUserStats, InsertUserStats]
      \<or> calls (fst (trackHintUsage e u b l s)) = calls s @ map DbCall [SelectGameSessions, UpdateGameSessions, SelectUserStats, UpdateUserStats, InsertPointTransactions]
      \<or> calls (fst (trackHintUsage e u b l s)) = calls s @ map DbCall [SelectGameSessions, UpdateGameSessions, SelectUserStats, InsertUserStats, InsertPointTransactions]"
    by (simp add: trackHintUsage_def trackHintUsage_try_def store_ops Let_def
          split: list.splits)
  then show ?thesis by blast
qed

lemma trackHintUsage_tables_only:
  assumes "tablesOf s = tablesOf t"
  shows "snd (trackHintUsage e u b l s) = snd (trackHintUsage e u b l t)
       \<and> tablesOf (fst (trackHintUsage e u b l s)) = tablesOf (fst (trackHintUsage e u b l t))"
  using assms
  by (simp add: tablesOf_def trackHintUsage_def trackHintUsage_try_def store_ops Let_def
        split: list.splits)

lemma trackHintUsage_thrown:
  assumes "trackHintUsage e u b l s = (s', r)"
    and "DbCall op \<in> set (newCalls s s')" and "storeFails e op"
  shows "r = notTracked"
  using assms
  by (auto simp add: newCalls_def trackHintUsage_def trackHintUsage_try_def store_ops Let_def
        split: list.splits if_splits)


lemma handleSolveRequest_thrown:
  assumes "solverStage e c s = (s1, Inl x)"
  shows "handleSolveRequest e c s =
           (s1, \<lparr>status = 503, body = Failure ''Solver service unavailable''\<rparr>)"
  using assms by (simp add: handleSolveRequest_def handleSolveRequest_try_stage)

lemma handleSolveRequest_solver_error:
  assumes "solverStage e c s = (s1, Inr result)"
    and "\<not> sr_success result \<or> sr_data result = None"
  shows "handleSolveRequest e c s =
           (s1, \<lparr>status = 400, body = Failure (solverErrorMessage result)\<rparr>)"
  using assms
  by (auto simp add: handleSolveRequest_def handleSolveRequest_try_stage
        split: option.splits bool.splits)

lemma handleSolveRequest_denied:
  assumes "solverStage e c s = (s1, Inr result)"
    and "sr_success result" and "sr_data result = Some dat" and "denied c dat"
  shows "handleSolveRequest e c s =
           (s1, \<lparr>status = 402,
                 body = HintAccessDenied
                   \<lparr>hd_code = ''HINT_ACCESS_DENIED'',
                    hd_hintLevel = hintLevelOf dat,
                    hd_requiredEntitlement = getRequiredEntitlement (hintLevelOf dat),
                    hd_userState =
                      (case ctx_hintAccess c of Some ha \<Rightarrow> userState ha | None \<Rightarrow> Anonymous),
                    hd_timestamp = now e\<rparr>\<rparr>)"
  using assms
  by (simp add: handleSolveRequest_def handleSolveRequest_try_stage denied_def)

lemma handleSolveRequest_allowed:
  assumes "solverStage e c s = (s1, Inr result)"
    and "sr_success result" and "sr_data result = Some dat" and "\<not> denied c dat"
  shows "handleSolveRequest e c s =
           (case uidOf c of
              None \<Rightarrow> (s1, \<lparr>status = 200, body = Success dat None\<rparr>)
            | Some u \<Rightarrow>
                (fst (trackHintUsage e u (orElse (query_original c) [])
                        (orElse (sd_hints_level dat) 1) s1),
                 \<lparr>status = 200,
                  body = Success dat
                    (if tracked (snd (trackHintUsage e u (orElse (query_original c) [])
                                        (orElse (sd_hints_level dat) 1) s1))
                     then Some \<lparr>pe_points =
                                  hintPoints (snd (trackHintUsage e u (orElse (query_original c) [])
                                                     (orElse (sd_hints_level dat) 1) s1)),
                                pe_techniqueLevel = orElse (sd_hints_level dat) 1\<rparr>
                     else None)\<rparr>))"
  using assms
  by (simp add: handleSolveRequest_def handleSolveRequest_try_stage denied_def
        split: option.splits prod.splits)

lemma handleSolveRequest_cases:
  assumes "solverStage e c s = (s1, v)"
  shows "(\<exists>ops. calls (fst (handleSolveRequest e c s)) = calls s1 @ map DbCall ops)
       \<and> (status (snd (handleSolveRequest e c s)) = 503 \<longleftrightarrow> isThrown v)"
proof (cases v)
  case (Inl x)
  with assms handleSolveRequest_thrown [of e c s s1 x] show ?thesis
    by (simp add: isThrown_def)
next
  case (Inr result)
  show ?thesis
  proof (cases "sr_success result \<and> sr_data result \<noteq> None")
    case False
    with assms Inr handleSolveRequest_solver_error [of e c s s1 result] show ?thesis
      by (auto simp add: isThrown_def)
  next
    case True
    then obtain dat where d: "sr_success result" "sr_data result = Some dat" by auto
    show ?thesis
    proof (cases "denied c dat")
      case True
      with assms Inr d handleSolveRequest_denied [of e c s s1 result dat] show ?thesis
        by (simp add: isThrown_def)
    next
      case False
      note h = handleSolveRequest_allowed [of e c s s1 result dat]
      show ?thesis
      proof (cases "uidOf c")
        case None
        with assms Inr d False h show ?thesis by (simp add: isThrown_def)
      next
        case (Some u)
        with assms Inr d False h
          trackHintUsage_calls [of e u "orElse (query_original c) []" "orElse (sd_hints_level dat) 1" s1]
        show ?thesis by (simp add: isThrown_def)
      qed
    qed
  qed
qed

lemma solverStage_calls:
  "fst (solverStage e c s) =
     s\<lparr>calls := calls s @ map SolverCall
        (if truthy (query_techniques c)
         then (case proxySolverRequest e (queryOf c (query_techniques c)) of
                 Inl _ \<Rightarrow> [queryOf c (query_techniques c)]
               | Inr r \<Rightarrow> if needsFallback r
                          then [queryOf c (query_techniques c), queryOf c None]
                          else [queryOf c (query_techniques c)])
         else [queryOf c None])\<rparr>"
proof (cases "truthy (query_techniques c)")
  case True
  from solverStage_filtered [OF True, of e s] True show ?thesis
    by (simp split: sum.splits)
next
  case False
  from solverStage_generic [OF False, of e s] False show ?thesis by simp
qed

lemma solverQueries_SolverCalls: "solverQueries (map SolverCall qs) = qs"
  by (induction qs) simp_all

lemma dbOps_SolverCalls: "dbOps (map SolverCall qs) = []"
  by (induction qs) simp_all

lemma handleSolveRequest_queries:
  "solverQueries (newCalls s (fst (handleSolveRequest e c s))) =
     (if truthy (query_techniques c)
      then (case proxySolverRequest e (queryOf c (query_techniques c)) of
              Inl _ \<Rightarrow> [queryOf c (query_techniques c)]
            | Inr r \<Rightarrow> if needsFallback r
                       then [queryOf c (query_techniques c), queryOf c None]
                       else [queryOf c (query_techniques c)])
      else [queryOf c None])"
proof -
  let ?qs = "if truthy (query_techniques c)
      then (case proxySolverRequest e (queryOf c (query_techniques c)) of
              Inl _ \<Rightarrow> [queryOf c (query_techniques c)]
            | Inr r \<Rightarrow> if needsFallback r
                       then [queryOf c (query_techniques c), queryOf c None]
                       else [queryOf c (query_techniques c)])
      else [queryOf c None]"
  obtain s1 v where st: "solverStage e c s = (s1, v)" by (cases "solverStage e c s")
  with solverStage_calls [of e c s] have c1: "calls s1 = calls s @ map SolverCall ?qs"
    by simp
  from handleSolveRequest_cases [OF st] obtain ops where
    "calls (fst (handleSolveRequest e c s)) = calls s1 @ map DbCall ops" by blast
  with c1 have "calls (fst (handleSolveRequest e c s)) = calls s @ (map SolverCall ?qs @ map DbCall ops)"
    by simp
  from newCalls_append [OF this] show ?thesis
    by (simp only: solverQueries_append solverQueries_SolverCalls solverQueries_DbCalls append_Nil2)
qed

lemma handleSolveRequest_tables_only:
  assumes st: "solverStage e c s = (s1, v)" and st': "solverStage e c' t = (t1, v)"
    and tabs: "tablesOf s1 = tablesOf t1"
    and acc: "ctx_hintAccess c' = ctx_hintAccess c" and us: "uidOf c' = uidOf c"
    and orig: "query_original c' = query_original c"
  shows "snd (handleSolveRequest e c s) = snd (handleSolveRequest e c' t)
       \<and> tablesOf (fst (handleSolveRequest e c s)) = tablesOf (fst (handleSolveRequest e c' t))"
proof (cases v)
  case (Inl x)
  with st st' tabs handleSolveRequest_thrown [of e c s s1 x]
    handleSolveRequest_thrown [of e c' t t1 x]
  show ?thesis by simp
next
  case (Inr result)
  note r = st [unfolded Inr] st' [unfolded Inr]
  show ?thesis
  proof (cases "sr_success result \<and> sr_data result \<noteq> None")
    case False
    then have bad: "\<not> sr_success result \<or> sr_data result = None" by simp
    from handleSolveRequest_solver_error [OF r(1) bad]
      handleSolveRequest_solver_error [OF r(2) bad] tabs
    show ?thesis by simp
  next
    case True
    then obtain dat where d: "sr_success result" "sr_data result = Some dat" by auto
    have dd: "denied c' dat = denied c dat" by (simp add: denied_def acc)
    show ?thesis
    proof (cases "denied c dat")
      case True
      with dd have "denied c' dat" by simp
      from handleSolveRequest_denied [OF r(1) d True]
        handleSolveRequest_denied [OF r(2) d this] tabs
      show ?thesis by (simp add: acc)
    next
      case False
      with dd have f': "\<not> denied c' dat" by simp
      note h = handleSolveRequest_allowed [OF r(1) d False]
        handleSolveRequest_allowed [OF r(2) d f']
      show ?thesis
      proof (cases "uidOf c")
        case None
        with h tabs show ?thesis by (simp add: us)
      next
        case (Some u)
        from trackHintUsage_tables_only [OF tabs, of e u "orElse (query_original c) []"
            "orElse (sd_hints_level dat) 1"] h
        show ?thesis by (simp add: us orig Some)
      qed
    qed
  qed
qed

lemma queryOf_techniques_update [simp]:
  "queryOf (c\<lparr>query_techniques := t\<rparr>) q = queryOf c q"
  by (simp add: queryOf_def)

lemma isThrown_proxySolverRequest:
  "isThrown (proxySolverRequest e q) \<longleftrightarrow>
     (case fetch e q of FetchResponse st b \<Rightarrow> \<not> response_ok st \<or> b = None | _ \<Rightarrow> True)"
  by (simp add: isThrown_def proxySolverRequest_def split: fetch_outcome.splits option.splits)

lemma handleSolveRequest_503:
  "status (snd (handleSolveRequest e c s)) = 503 \<longleftrightarrow>
     (\<exists>q \<in> set (solverQueries (newCalls s (fst (handleSolveRequest e c s)))).
        isThrown (proxySolverRequest e q))"
proof -
  obtain s1 v where st: "solverStage e c s = (s1, v)" by (cases "solverStage e c s")
  from handleSolveRequest_cases [OF st]
  have a: "status (snd (handleSolveRequest e c s)) = 503 \<longleftrightarrow> isThrown v" by blast
  show ?thesis
  proof (cases "truthy (query_techniques c)")
    case False
    with st solverStage_generic [OF False, of e s] a show ?thesis
      by (simp add: handleSolveRequest_queries)
  next
    case True
    with st solverStage_filtered [OF True, of e s] a show ?thesis
      by (auto simp add: handleSolveRequest_queries isThrown_def split: sum.splits if_splits)
  qed
qed

lemma filtered_call_thrown_no_retry:
  assumes "truthy (query_techniques c)"
    and "proxySolverRequest e (queryOf c (query_techniques c)) = Inl x"
  shows "handleSolveRequest e c s =
           (s\<lparr>calls := calls s @ [SolverCall (queryOf c (query_techniques c))]\<rparr>,
            \<lparr>status = 503, body = Failure ''Solver service unavailable''\<rparr>)"
proof -
  from assms solverStage_filtered [OF assms(1), of e s]
  have "solverStage e c s =
      (s\<lparr>calls := calls s @ [SolverCall (queryOf c (query_techniques c))]\<rparr>, Inl x)"
    by simp
  then show ?thesis by (rule handleSolveRequest_thrown)
qed

lemma trackHintUsage_matched:
  assumes "filter (\<lambda>x. gs_userId x = userId) (gameSessions s) = session # rest"
    and "gs_board session = originalBoard"
    and "\<forall>op \<in> set (trackingOps userId s). \<not> storeFails e op"
  shows "trackHintUsage e userId originalBoard techniqueLevel s =
           (afterTrackedHint e userId techniqueLevel session s,
            \<lparr>tracked = True, hintPoints = 2 * techniqueLevel\<rparr>)"
proof (cases "filter (\<lambda>x. us_userId x = userId) (userStats s)")
  case Nil
  with assms show ?thesis
    by (simp add: track_defs trackingOps_def afterTrackedHint_def)
next
  case (Cons st more)
  with assms show ?thesis
    by (simp add: track_defs trackingOps_def afterTrackedHint_def)
qed

lemma trackHintUsage_tracked_matched:
  assumes "trackHintUsage e userId originalBoard techniqueLevel s = (s', r)" and "tracked r"
  shows "\<exists>session rest.
       filter (\<lambda>x. gs_userId x = userId) (gameSessions s) = session # rest
     \<and> gs_board session = originalBoard
     \<and> (\<forall>op \<in> set (trackingOps userId s). \<not> storeFails e op)"
  using assms
  by (auto simp add: track_defs trackingOps_def split: list.splits if_splits)

lemma getDailyLimit_listed:
  "getDailyLimit ''solve'' = NumberValue 10 \<and> getDailyLimit ''boards'' = NumberValue 2
   \<and> getDailyLimit ''dailies'' = NumberValue 2 \<and> getDailyLimit ''challenges'' = NumberValue 2"
  by (simp add: getDailyLimit_def DAILY_LIMITS_def orElse_def)

lemma getDailyLimit_default:
  assumes "endpoint \<notin> {''boards'', ''dailies'', ''challenges'', ''solve''}"
    and "endpoint \<notin> set objectPrototypeNames"
  shows "getDailyLimit endpoint = NumberValue 2"
  using assms by (simp add: getDailyLimit_def DAILY_LIMITS_def DEFAULT_DAILY_LIMIT_def orElse_def)

lemma getDailyLimit_inherited:
  assumes "endpoint \<in> set objectPrototypeNames"
  shows "getDailyLimit endpoint = InheritedMember"
  using assms
  by (auto simp add: getDailyLimit_def DAILY_LIMITS_def orElse_def objectPrototypeNames_def)

lemma checkAndRecordAccess_numeric_limit:
  assumes "\<not> storeFails e CountAccessLogs" and "\<not> storeFails e InsertAccessLogs"
    and "getDailyLimit endpoint = NumberValue limit"
  shows "checkAndRecordAccess e userId endpoint s =
         (if accessCountToday e userId endpoint s < limit
          then (s\<lparr>accessLogs := accessLogs s @
                     [\<lparr>al_user_id = userId, al_endpoint = endpoint,
                       al_access_date = dateAtRecord e\<rparr>],
                   calls := calls s @ [DbCall CountAccessLogs, DbCall InsertAccessLogs]\<rparr>,
                Inr \<lparr>granted = True,
                     remaining = Num (limit - accessCountToday e userId endpoint s - 1)\<rparr>)
          else (s\<lparr>calls := calls s @ [DbCall CountAccessLogs]\<rparr>,
                Inr \<lparr>granted = False, remaining = Num 0\<rparr>))"
  using assms
  by (simp add: checkAndRecordAccess_def getAccessCountToday_def recordAccess_def dbCall_def
        accessCountToday_def reachesLimit_def remainingAfter_def Let_def)

lemma checkAndRecordAccess_inherited_limit:
  assumes "\<not> storeFails e CountAccessLogs" and "\<not> storeFails e InsertAccessLogs"
    and "endpoint \<in> set objectPrototypeNames"
  shows "checkAndRecordAccess e userId endpoint s =
         (s\<lparr>accessLogs := accessLogs s @
               [\<lparr>al_user_id = userId, al_endpoint = endpoint,
                 al_access_date = dateAtRecord e\<rparr>],
             calls := calls s @ [DbCall CountAccessLogs, DbCall InsertAccessLogs]\<rparr>,
          Inr \<lparr>granted = True, remaining = NaN\<rparr>)"
  using assms(1,2) getDailyLimit_inherited [OF assms(3)]
  by (simp add: checkAndRecordAccess_def getAccessCountToday_def recordAccess_def dbCall_def
        reachesLimit_def remainingAfter_def Let_def)

section \<open>The claims\<close>

text \<open>
  Claim C1. A request whose solver stage delivered a successful answer with data, and whose
  context holds an access decision, is answered 402 exactly when the hint's level
  (\<open>hints?.level ?? 0\<close>) is strictly above the decision's \<open>maxHintLevel\<close>; equality is
  allowed and an unbounded maximum is never exceeded. The 402 answer carries the code
  \<open>HINT_ACCESS_DENIED\<close>, the hint level, the required entitlement and the decision's user
  state, and the store is as the solver stage left it. When the hint is not denied the
  answer is 200 with the solver's data as it came, so no hint is replaced by a lower one.
\<close>

theorem hint_gate_denies_iff_above_max:
  assumes "solverStage e c s = (s1, Inr result)"
    and "sr_success result" and "sr_data result = Some dat"
    and "ctx_hintAccess c = Some ha"
  shows "(status (snd (handleSolveRequest e c s)) = 402
           \<longleftrightarrow> exceeds (hintLevelOf dat) (maxHintLevel ha))
     \<and> (exceeds (hintLevelOf dat) (maxHintLevel ha)
           \<longleftrightarrow> (\<exists>m. maxHintLevel ha = Level m \<and> m < hintLevelOf dat))
     \<and> (exceeds (hintLevelOf dat) (maxHintLevel ha) \<longrightarrow>
          handleSolveRequest e c s =
            (s1, \<lparr>status = 402,
                  body = HintAccessDenied
                    \<lparr>hd_code = ''HINT_ACCESS_DENIED'',
                     hd_hintLevel = hintLevelOf dat,
                     hd_requiredEntitlement = getRequiredEntitlement (hintLevelOf dat),
                     hd_userState = userState ha,
                     hd_timestamp = now e\<rparr>\<rparr>))
     \<and> (\<not> exceeds (hintLevelOf dat) (maxHintLevel ha) \<longrightarrow>
          (\<exists>p. snd (handleSolveRequest e c s) = \<lparr>status = 200, body = Success dat p\<rparr>))"
proof -
  have d: "denied c dat \<longleftrightarrow> exceeds (hintLevelOf dat) (maxHintLevel ha)"
    using assms(4) by (simp add: denied_def)
  have x: "exceeds (hintLevelOf dat) (maxHintLevel ha)
           \<longleftrightarrow> (\<exists>m. maxHintLevel ha = Level m \<and> m < hintLevelOf dat)"
    by (cases "maxHintLevel ha") (simp_all add: exceeds_def)
  show ?thesis
  proof (cases "denied c dat")
    case True
    from handleSolveRequest_denied [OF assms(1-3) True] assms(4) True d x show ?thesis
      by simp
  next
    case False
    from handleSolveRequest_allowed [OF assms(1-3) False] False d x show ?thesis
      by (cases "uidOf c") simp_all
  qed
qed

text \<open>An anonymous caller with maximum 3 and a hint of level 4: denied, \<open>blue_belt\<close>
  required.\<close>

theorem hint_gate_denies_iff_above_max_witness:
  "solverStage (sampleEnv FetchRejected (FetchResponse 200 (Some (hintOfLevel (Some 4)))) (\<lambda>_. False))
      (sampleRequest None (Some \<lparr>maxHintLevel = Level 3, userState = Anonymous\<rparr>) None) sampleStore
    = (sampleStore\<lparr>calls := [SolverCall (queryOf (sampleRequest None None None) None)]\<rparr>,
       Inr (hintOfLevel (Some 4)))
   \<and> sr_success (hintOfLevel (Some 4))
   \<and> sr_data (hintOfLevel (Some 4)) = Some \<lparr>sd_hints_level = Some 4, sd_payload = ''board''\<rparr>
   \<and> snd (handleSolveRequest
        (sampleEnv FetchRejected (FetchResponse 200 (Some (hintOfLevel (Some 4)))) (\<lambda>_. False))
        (sampleRequest None (Some \<lparr>maxHintLevel = Level 3, userState = Anonymous\<rparr>) None) sampleStore)
      = \<lparr>status = 402,
         body = HintAccessDenied
           \<lparr>hd_code = ''HINT_ACCESS_DENIED'', hd_hintLevel = 4,
            hd_requiredEntitlement = Some ''blue_belt'', hd_userState = Anonymous,
            hd_timestamp = 1714550000\<rparr>\<rparr>"
proof -
  let ?e = "sampleEnv FetchRejected (FetchResponse 200 (Some (hintOfLevel (Some 4)))) (\<lambda>_. False)"
  let ?ha = "\<lparr>maxHintLevel = Level 3, userState = Anonymous\<rparr>"
  let ?c = "sampleRequest None (Some ?ha) None"
  let ?dat = "\<lparr>sd_hints_level = Some 4, sd_payload = ''board''\<rparr>"
  have h1: "solverStage ?e ?c sampleStore
      = (sampleStore\<lparr>calls := [SolverCall (queryOf (sampleRequest None None None) None)]\<rparr>,
         Inr (hintOfLevel (Some 4)))"
    by (simp add: solverStage_def handler_defs queryOf_def sample_defs)
  have h2: "sr_success (hintOfLevel (Some 4))" by (simp add: hintOfLevel_def)
  have h3: "sr_data (hintOfLevel (Some 4)) = Some ?dat" by (simp add: hintOfLevel_def)
  have h4: "ctx_hintAccess ?c = Some ?ha" by (simp add: sampleRequest_def)
  have x: "exceeds (hintLevelOf ?dat) (maxHintLevel ?ha)"
    by (simp add: exceeds_def hintLevelOf_def orElse_def)
  from hint_gate_denies_iff_above_max [OF h1 h2 h3 h4] x h1 h2 h3 show ?thesis
    by (simp add: hintLevelOf_def orElse_def getRequiredEntitlement_def sampleEnv_def)
qed

text \<open>
  The claim as the spec states it, with \<open>2 \<times> max(techniqueLevel, 1)\<close>, fails at level 0:
  the user \<open>u1\<close> has a session on the sample board, the hint is tracked, and 0 points are
  awarded. The handler reaches this call: \<open>hints?.level ?? 1\<close> keeps a level of 0, so a
  solver answer of level 0 yields \<open>points = 0, techniqueLevel = 0\<close> in the response.
\<close>

theorem trackHintUsage_level_zero_counterexample:
  "tracked (snd (trackHintUsage (sampleEnv FetchRejected FetchRejected (\<lambda>_. False))
                   ''u1'' sampleBoard 0 sampleStore))
   \<and> hintPoints (snd (trackHintUsage (sampleEnv FetchRejected FetchRejected (\<lambda>_. False))
                   ''u1'' sampleBoard 0 sampleStore)) \<noteq> 2 * max 0 1
   \<and> snd (handleSolveRequest
            (sampleEnv FetchRejected (FetchResponse 200 (Some (hintOfLevel (Some 0)))) (\<lambda>_. False))
            (sampleRequest None None (Some \<lparr>uid = ''u1''\<rparr>)) sampleStore)
       = \<lparr>status = 200,
          body = Success \<lparr>sd_hints_level = Some 0, sd_payload = ''board''\<rparr>
                   (Some \<lparr>pe_points = 0, pe_techniqueLevel = 0\<rparr>)\<rparr>"
  by (simp add: track_defs handler_defs sample_defs)

text \<open>
  Claim C2, amended. A hint is tracked whenever the user's first session row has the board
  \<open>originalBoard\<close> and none of the store calls it takes throws, and every tracked hint
  awards exactly \<open>2 \<times> techniqueLevel\<close> points, as the function's documentation says; this
  is \<open>2 \<times> max(techniqueLevel, 1)\<close> whenever the level is at least 1. The same amount is
  added to the user's total (read as the code reads it: the first row of the user, 0 when
  there is none) and is the \<open>points\<close> of the one transaction row appended.
\<close>

theorem trackHintUsage_points:
  "(filter (\<lambda>x. gs_userId x = userId) (gameSessions s) = session # rest
      \<and> gs_board session = originalBoard
      \<and> (\<forall>op \<in> set (trackingOps userId s). \<not> storeFails e op)
    \<longrightarrow> snd (trackHintUsage e userId originalBoard techniqueLevel s)
            = \<lparr>tracked = True, hintPoints = 2 * techniqueLevel\<rparr>
        \<and> totalPointsOf userId (fst (trackHintUsage e userId originalBoard techniqueLevel s))
            = totalPointsOf userId s + 2 * techniqueLevel
        \<and> (\<exists>row. pointTransactions (fst (trackHintUsage e userId originalBoard techniqueLevel s))
                    = pointTransactions s @ [row]
                 \<and> pt_points row = 2 * techniqueLevel))
   \<and> (trackHintUsage e userId originalBoard techniqueLevel s = (s', r) \<and> tracked r
    \<longrightarrow> hintPoints r = 2 * techniqueLevel
        \<and> totalPointsOf userId s' = totalPointsOf userId s + hintPoints r
        \<and> (\<exists>row. pointTransactions s' = pointTransactions s @ [row]
                 \<and> pt_points row = hintPoints r))
   \<and> (1 \<le> techniqueLevel \<longrightarrow> 2 * techniqueLevel = 2 * max techniqueLevel 1)"
proof -
  have conv: "hintPoints r = 2 * techniqueLevel
        \<and> totalPointsOf userId s' = totalPointsOf userId s + hintPoints r
        \<and> (\<exists>row. pointTransactions s' = pointTransactions s @ [row]
                 \<and> pt_points row = hintPoints r)"
    if run: "trackHintUsage e userId originalBoard techniqueLevel s = (s', r)" and t: "tracked r"
    for s' r
  proof -
    from trackHintUsage_tracked [OF run t]
    have "hintPoints r = 2 * techniqueLevel"
      and "\<exists>row. pointTransactions s' = pointTransactions s @ [row] \<and> pt_points row = hintPoints r"
      by auto
    with trackHintUsage_total_delta [OF run t] show ?thesis by blast
  qed
  have prog: "snd (trackHintUsage e userId originalBoard techniqueLevel s)
            = \<lparr>tracked = True, hintPoints = 2 * techniqueLevel\<rparr>
        \<and> totalPointsOf userId (fst (trackHintUsage e userId originalBoard techniqueLevel s))
            = totalPointsOf userId s + 2 * techniqueLevel
        \<and> (\<exists>row. pointTransactions (fst (trackHintUsage e userId originalBoard techniqueLevel s))
                    = pointTransactions s @ [row]
                 \<and> pt_points row = 2 * techniqueLevel)"
    if m: "filter (\<lambda>x. gs_userId x = userId) (gameSessions s) = session # rest"
      "gs_board session = originalBoard"
      "\<forall>op \<in> set (trackingOps userId s). \<not> storeFails e op"
  proof -
    let ?run = "trackHintUsage e userId originalBoard techniqueLevel s"
    from trackHintUsage_matched [OF m, of techniqueLevel]
    have r: "snd ?run = \<lparr>tracked = True, hintPoints = 2 * techniqueLevel\<rparr>" by simp
    then have t: "tracked (snd ?run)" and p: "hintPoints (snd ?run) = 2 * techniqueLevel"
      by simp_all
    have run: "?run = (fst ?run, snd ?run)" by simp
    from conv [OF run t] r p show ?thesis by simp
  qed
  have p: "filter (\<lambda>x. gs_userId x = userId) (gameSessions s) = session # rest
      \<and> gs_board session = originalBoard
      \<and> (\<forall>op \<in> set (trackingOps userId s). \<not> storeFails e op)
    \<longrightarrow> snd (trackHintUsage e userId originalBoard techniqueLevel s)
            = \<lparr>tracked = True, hintPoints = 2 * techniqueLevel\<rparr>
        \<and> totalPointsOf userId (fst (trackHintUsage e userId originalBoard techniqueLevel s))
            = totalPointsOf userId s + 2 * techniqueLevel
        \<and> (\<exists>row. pointTransactions (fst (trackHintUsage e userId originalBoard techniqueLevel s))
                    = pointTransactions s @ [row]
                 \<and> pt_points row = 2 * techniqueLevel)"
    using prog by (intro impI) (elim conjE)
  have c: "trackHintUsage e userId originalBoard techniqueLevel s = (s', r) \<and> tracked r
    \<longrightarrow> hintPoints r = 2 * techniqueLevel
        \<and> totalPointsOf userId s' = totalPointsOf userId s + hintPoints r
        \<and> (\<exists>row. pointTransactions s' = pointTransactions s @ [row]
                 \<and> pt_points row = hintPoints r)"
    using conv [of s' r] by (intro impI) (elim conjE)
  have a: "1 \<le> techniqueLevel \<longrightarrow> 2 * techniqueLevel = 2 * max techniqueLevel 1"
    by simp
  show ?thesis by (rule conjI [OF p conjI [OF c a]])
qed

text \<open>A level-5 hint on the matching session: 10 points, the total goes from 40 to 50.\<close>

theorem trackHintUsage_points_witness:
  "filter (\<lambda>x. gs_userId x = ''u1'') (gameSessions sampleStore) = sampleSession # []
   \<and> gs_board sampleSession = sampleBoard
   \<and> list_all (\<lambda>op. \<not> storeFails (sampleEnv FetchRejected FetchRejected (\<lambda>_. False)) op)
        (trackingOps ''u1'' sampleStore)
   \<and> snd (trackHintUsage (sampleEnv FetchRejected FetchRejected (\<lambda>_. False))
             ''u1'' sampleBoard 5 sampleStore) = \<lparr>tracked = True, hintPoints = 10\<rparr>
   \<and> totalPointsOf ''u1'' (fst (trackHintUsage (sampleEnv FetchRejected FetchRejected (\<lambda>_. False))
             ''u1'' sampleBoard 5 sampleStore)) = 40 + 10
   \<and> (1::int) \<le> 5 \<and> (2::int) * 5 = 2 * max 5 1"
proof -
  let ?e = "sampleEnv FetchRejected FetchRejected (\<lambda>_. False)"
  let ?run = "trackHintUsage ?e ''u1'' sampleBoard 5 sampleStore"
  have h1: "filter (\<lambda>x. gs_userId x = ''u1'') (gameSessions sampleStore) = sampleSession # []"
    by (simp add: sampleStore_def sampleSession_def)
  have h2: "gs_board sampleSession = sampleBoard" by (simp add: sampleSession_def)
  have h3: "\<forall>op \<in> set (trackingOps ''u1'' sampleStore). \<not> storeFails ?e op"
    by (simp add: sampleEnv_def)
  have h4: "(1::int) \<le> 5" by simp
  have run: "?run = (fst ?run, snd ?run)" by simp
  have before: "totalPointsOf ''u1'' sampleStore = 40"
    by (simp add: totalPointsOf_def sampleStore_def)
  from trackHintUsage_points [where userId = "''u1''" and s = sampleStore
      and session = sampleSession and rest = "[]" and originalBoard = sampleBoard and e = ?e
      and techniqueLevel = 5 and s' = "fst ?run" and r = "snd ?run"]
    h1 h2 h3 h4 before
  show ?thesis by (simp add: list_all_iff)
qed

text \<open>
  Claim C3. When the user has no session row, or the first row's board differs from
  \<open>originalBoard\<close>, \<open>trackHintUsage\<close> returns \<open>tracked = false, hintPoints = 0\<close> and leaves
  the store as it was, having issued the one select on \<open>gameSessions\<close> and no write; this
  holds whether or not store calls throw. When the request has no \<open>firebaseUser\<close> with a
  non-empty \<open>uid\<close>, the handler issues no store call at all, every table is unchanged, and
  a success response carries no points.
\<close>

theorem trackHintUsage_noop:
  "((case filter (\<lambda>x. gs_userId x = userId) (gameSessions s) of
       [] \<Rightarrow> True | session # _ \<Rightarrow> gs_board session \<noteq> originalBoard)
     \<longrightarrow> trackHintUsage e userId originalBoard techniqueLevel s =
           (s\<lparr>calls := calls s @ [DbCall SelectGameSessions]\<rparr>, notTracked))
   \<and> (uidOf c = None
     \<longrightarrow> dbOps (newCalls s (fst (handleSolveRequest e c s))) = []
       \<and> tablesOf (fst (handleSolveRequest e c s)) = tablesOf s
       \<and> (\<forall>dat p. body (snd (handleSolveRequest e c s)) = Success dat p \<longrightarrow> p = None))"
proof (intro conjI impI)
  assume "case filter (\<lambda>x. gs_userId x = userId) (gameSessions s) of
       [] \<Rightarrow> True | session # _ \<Rightarrow> gs_board session \<noteq> originalBoard"
  then show "trackHintUsage e userId originalBoard techniqueLevel s =
           (s\<lparr>calls := calls s @ [DbCall SelectGameSessions]\<rparr>, notTracked)"
    by (rule trackHintUsage_unmatched)
next
  assume u: "uidOf c = None"
  obtain s1 v where st: "solverStage e c s = (s1, v)" by (cases "solverStage e c s")
  have "\<exists>qs. calls s1 = calls s @ map SolverCall qs \<and> tablesOf s1 = tablesOf s"
  proof (cases "truthy (query_techniques c)")
    case True
    from st solverStage_filtered [OF True, of e s]
    have "calls s1 = calls s @ map SolverCall [queryOf c (query_techniques c)] 
        \<or> calls s1 = calls s @ map SolverCall [queryOf c (query_techniques c), queryOf c None]"
      and "tablesOf s1 = tablesOf s"
      by (auto simp add: tablesOf_def split: sum.splits if_splits)
    then show ?thesis by blast
  next
    case False
    from st solverStage_generic [OF False, of e s]
    have "calls s1 = calls s @ map SolverCall [queryOf c None]" and "tablesOf s1 = tablesOf s"
      by (auto simp add: tablesOf_def)
    then show ?thesis by blast
  qed
  then obtain qs where c1: "calls s1 = calls s @ map SolverCall qs" and t1: "tablesOf s1 = tablesOf s"
    by blast
  have f: "fst (handleSolveRequest e c s) = s1"
    using st u
    by (simp add: handleSolveRequest_def handleSolveRequest_try_stage
          split: sum.splits option.splits bool.splits)
  have b: "\<forall>dat p. body (snd (handleSolveRequest e c s)) = Success dat p \<longrightarrow> p = None"
    using st u
    by (simp add: handleSolveRequest_def handleSolveRequest_try_stage
          split: sum.splits option.splits bool.splits)
  have "dbOps (map SolverCall qs) = []" by (induction qs) simp_all
  with newCalls_append [OF c1] f show "dbOps (newCalls s (fst (handleSolveRequest e c s))) = []"
    by simp
  from f t1 show "tablesOf (fst (handleSolveRequest e c s)) = tablesOf s" by simp
  from b show "\<forall>dat p. body (snd (handleSolveRequest e c s)) = Success dat p \<longrightarrow> p = None" .
qed

text \<open>The user \<open>u1\<close> asking about another board, the user \<open>u2\<close> who has no session, and
  an anonymous request.\<close>

theorem trackHintUsage_noop_witness:
  "(case filter (\<lambda>x. gs_userId x = ''u1'') (gameSessions sampleStore) of
      [] \<Rightarrow> True | session # _ \<Rightarrow> gs_board session \<noteq> otherBoard)
   \<and> trackHintUsage (sampleEnv FetchRejected FetchRejected (\<lambda>_. False)) ''u1'' otherBoard 3 sampleStore
       = (sampleStore\<lparr>calls := [DbCall SelectGameSessions]\<rparr>, \<lparr>tracked = False, hintPoints = 0\<rparr>)
   \<and> (case filter (\<lambda>x. gs_userId x = ''u2'') (gameSessions sampleStore) of
      [] \<Rightarrow> True | session # _ \<Rightarrow> gs_board session \<noteq> sampleBoard)
   \<and> trackHintUsage (sampleEnv FetchRejected FetchRejected (\<lambda>_. False)) ''u2'' sampleBoard 3 sampleStore
       = (sampleStore\<lparr>calls := [DbCall SelectGameSessions]\<rparr>, \<lparr>tracked = False, hintPoints = 0\<rparr>)
   \<and> uidOf (sampleRequest None None None) = None
   \<and> dbOps (newCalls sampleStore
        (fst (handleSolveRequest
           (sampleEnv FetchRejected (FetchResponse 200 (Some (hintOfLevel (Some 3)))) (\<lambda>_. False))
           (sampleRequest None None None) sampleStore))) = []"
proof -
  let ?e = "sampleEnv FetchRejected FetchRejected (\<lambda>_. False)"
  let ?e2 = "sampleEnv FetchRejected (FetchResponse 200 (Some (hintOfLevel (Some 3)))) (\<lambda>_. False)"
  let ?c = "sampleRequest None None None"
  have h1: "case filter (\<lambda>x. gs_userId x = ''u1'') (gameSessions sampleStore) of
      [] \<Rightarrow> True | session # _ \<Rightarrow> gs_board session \<noteq> otherBoard"
    by (simp add: sample_defs)
  have h2: "case filter (\<lambda>x. gs_userId x = ''u2'') (gameSessions sampleStore) of
      [] \<Rightarrow> True | session # _ \<Rightarrow> gs_board session \<noteq> sampleBoard"
    by (simp add: sample_defs)
  have h3: "uidOf ?c = None" by (simp add: uidOf_def sampleRequest_def)
  have c0: "calls sampleStore = []" by (simp add: sampleStore_def)
  from trackHintUsage_noop [where userId = "''u1''" and s = sampleStore and originalBoard = otherBoard
      and e = ?e and techniqueLevel = 3 and c = ?c]
    trackHintUsage_noop [where userId = "''u2''" and s = sampleStore and originalBoard = sampleBoard
      and e = ?e2 and techniqueLevel = 3 and c = ?c]
    trackHintUsage_unmatched [OF h2, of ?e 3]
    h1 h2 h3 c0
  show ?thesis by (simp add: notTracked_def)
qed

text \<open>
  Claim C4. Whenever the user's first session row has the board \<open>originalBoard\<close> and none
  of the store calls a tracked hint takes throws, \<open>trackHintUsage\<close> reports
  \<open>tracked = true\<close> with \<open>2 \<times> techniqueLevel\<close> points and leaves the store
  \<open>afterTrackedHint\<close>; conversely a tracked result only comes from such a session and
  leaves that store. That store differs from the one before in exactly this way, by store
  calls issued in exactly this order: the user's session rows have \<open>hintUsed = true\<close> and
  \<open>hintsCount\<close> one above the session's; the user's stats rows have \<open>totalPoints\<close> raised by
  \<open>hintPoints\<close> and \<open>updatedAt\<close> set to the clock, or, when the user had none, one row with
  \<open>totalPoints = hintPoints\<close> is created; one transaction row is appended with type
  \<open>hint_used\<close>, \<open>points = hintPoints\<close> and the metadata of the technique level and the
  session's level, puzzle type and puzzle id. No other table changes and the solver is not
  called.
\<close>

theorem trackHintUsage_state_changes:
  "(filter (\<lambda>x. gs_userId x = userId) (gameSessions s) = session # rest
      \<and> gs_board session = originalBoard
      \<and> (\<forall>op \<in> set (trackingOps userId s). \<not> storeFails e op)
    \<longrightarrow> trackHintUsage e userId originalBoard techniqueLevel s =
          (afterTrackedHint e userId techniqueLevel session s,
           \<lparr>tracked = True, hintPoints = 2 * techniqueLevel\<rparr>))
   \<and> (trackHintUsage e userId originalBoard techniqueLevel s = (s', r) \<and> tracked r
    \<longrightarrow> (\<exists>session rest.
            filter (\<lambda>x. gs_userId x = userId) (gameSessions s) = session # rest
          \<and> gs_board session = originalBoard
          \<and> hintPoints r = 2 * techniqueLevel
          \<and> s' = afterTrackedHint e userId techniqueLevel session s))
   \<and> gameSessions (afterTrackedHint e userId techniqueLevel session s) =
         map (\<lambda>x. if gs_userId x = userId
                   then x\<lparr>gs_hintUsed := True, gs_hintsCount := gs_hintsCount session + 1\<rparr>
                   else x) (gameSessions s)
   \<and> userStats (afterTrackedHint e userId techniqueLevel session s) =
         (case filter (\<lambda>x. us_userId x = userId) (userStats s) of
            st # _ \<Rightarrow>
              map (\<lambda>x. if us_userId x = userId
                        then x\<lparr>us_totalPoints := us_totalPoints st + 2 * techniqueLevel,
                               us_updatedAt := now e\<rparr>
                        else x) (userStats s)
          | [] \<Rightarrow> userStats s @
              [\<lparr>us_userId = userId, us_totalPoints = 2 * techniqueLevel,
                us_updatedAt = defaultUpdatedAt e\<rparr>])
   \<and> pointTransactions (afterTrackedHint e userId techniqueLevel session s) =
         pointTransactions s @
           [\<lparr>pt_userId = userId, pt_points = 2 * techniqueLevel,
             pt_transactionType = ''hint_used'',
             pt_metadata = \<lparr>md_techniqueLevel = techniqueLevel, md_puzzleLevel = gs_level session,
                            md_puzzleType = gs_puzzleType session,
                            md_puzzleId = gs_puzzleId session\<rparr>\<rparr>]
   \<and> accessLogs (afterTrackedHint e userId techniqueLevel session s) = accessLogs s
   \<and> dbOps (newCalls s (afterTrackedHint e userId techniqueLevel session s)) =
         [SelectGameSessions, UpdateGameSessions, SelectUserStats,
          if filter (\<lambda>x. us_userId x = userId) (userStats s) = []
          then InsertUserStats else UpdateUserStats,
          InsertPointTransactions]
   \<and> solverQueries (newCalls s (afterTrackedHint e userId techniqueLevel session s)) = []"
proof -
  have a: "filter (\<lambda>x. gs_userId x = userId) (gameSessions s) = session # rest
      \<and> gs_board session = originalBoard
      \<and> (\<forall>op \<in> set (trackingOps userId s). \<not> storeFails e op)
    \<longrightarrow> trackHintUsage e userId originalBoard techniqueLevel s =
          (afterTrackedHint e userId techniqueLevel session s,
           \<lparr>tracked = True, hintPoints = 2 * techniqueLevel\<rparr>)"
    by (blast intro: trackHintUsage_matched)
  have b: "\<exists>session rest.
            filter (\<lambda>x. gs_userId x = userId) (gameSessions s) = session # rest
          \<and> gs_board session = originalBoard
          \<and> hintPoints r = 2 * techniqueLevel
          \<and> s' = afterTrackedHint e userId techniqueLevel session s"
    if run: "trackHintUsage e userId originalBoard techniqueLevel s = (s', r)" and t: "tracked r"
  proof -
    from trackHintUsage_tracked_matched [OF run t] obtain session rest where
      m: "filter (\<lambda>x. gs_userId x = userId) (gameSessions s) = session # rest"
        "gs_board session = originalBoard"
        "\<forall>op \<in> set (trackingOps userId s). \<not> storeFails e op"
      by blast
    from trackHintUsage_matched [OF m, of techniqueLevel] run
    have "s' = afterTrackedHint e userId techniqueLevel session s"
      and "r = \<lparr>tracked = True, hintPoints = 2 * techniqueLevel\<rparr>"
      by simp_all
    with m show ?thesis by simp
  qed
  have c: "calls (afterTrackedHint e userId techniqueLevel session s) =
      calls s @ map DbCall (trackingOps userId s)"
    by (simp add: afterTrackedHint_def)
  have d: "dbOps (newCalls s (afterTrackedHint e userId techniqueLevel session s)) =
         [SelectGameSessions, UpdateGameSessions, SelectUserStats,
          if filter (\<lambda>x. us_userId x = userId) (userStats s) = []
          then InsertUserStats else UpdateUserStats,
          InsertPointTransactions]"
    and q: "solverQueries (newCalls s (afterTrackedHint e userId techniqueLevel session s)) = []"
    by (simp_all only: newCalls_append [OF c] dbOps_DbCalls solverQueries_DbCalls trackingOps_def)
  have f: "gameSessions (afterTrackedHint e userId techniqueLevel session s) =
         map (\<lambda>x. if gs_userId x = userId
                   then x\<lparr>gs_hintUsed := True, gs_hintsCount := gs_hintsCount session + 1\<rparr>
                   else x) (gameSessions s)"
    "userStats (afterTrackedHint e userId techniqueLevel session s) =
         (case filter (\<lambda>x. us_userId x = userId) (userStats s) of
            st # _ \<Rightarrow>
              map (\<lambda>x. if us_userId x = userId
                        then x\<lparr>us_totalPoints := us_totalPoints st + 2 * techniqueLevel,
                               us_updatedAt := now e\<rparr>
                        else x) (userStats s)
          | [] \<Rightarrow> userStats s @
              [\<lparr>us_userId = userId, us_totalPoints = 2 * techniqueLevel,
                us_updatedAt = defaultUpdatedAt e\<rparr>])"
    "pointTransactions (afterTrackedHint e userId techniqueLevel session s) =
         pointTransactions s @
           [\<lparr>pt_userId = userId, pt_points = 2 * techniqueLevel,
             pt_transactionType = ''hint_used'',
             pt_metadata = \<lparr>md_techniqueLevel = techniqueLevel, md_puzzleLevel = gs_level session,
                            md_puzzleType = gs_puzzleType session,
                            md_puzzleId = gs_puzzleId session\<rparr>\<rparr>]"
    "accessLogs (afterTrackedHint e userId techniqueLevel session s) = accessLogs s"
    by (simp_all add: afterTrackedHint_def)
  from a b d q f show ?thesis by blast
qed

text \<open>A level-3 hint for \<open>u1\<close> on the sample board: with a stats row the count goes to 1
  and the total from 40 to 46; without one a row with 6 points is created.\<close>

theorem trackHintUsage_state_changes_witness:
  "filter (\<lambda>x. gs_userId x = ''u1'') (gameSessions sampleStore) = sampleSession # []
   \<and> gs_board sampleSession = sampleBoard
   \<and> list_all (\<lambda>op. \<not> storeFails (sampleEnv FetchRejected FetchRejected
                                    (\<lambda>op. op = InsertUserStats)) op)
        (trackingOps ''u1'' sampleStore)
   \<and> snd (trackHintUsage (sampleEnv FetchRejected FetchRejected (\<lambda>op. op = InsertUserStats))
             ''u1'' sampleBoard 3 sampleStore) = \<lparr>tracked = True, hintPoints = 6\<rparr>
   \<and> gameSessions (fst (trackHintUsage (sampleEnv FetchRejected FetchRejected (\<lambda>op. op = InsertUserStats))
             ''u1'' sampleBoard 3 sampleStore))
       = [sampleSession\<lparr>gs_hintUsed := True, gs_hintsCount := 1\<rparr>]
   \<and> userStats (fst (trackHintUsage (sampleEnv FetchRejected FetchRejected (\<lambda>op. op = InsertUserStats))
             ''u1'' sampleBoard 3 sampleStore))
       = [\<lparr>us_userId = ''u1'', us_totalPoints = 46, us_updatedAt = 1714550000\<rparr>]
   \<and> filter (\<lambda>x. gs_userId x = ''u1'') (gameSessions freshStore) = sampleSession # []
   \<and> list_all (\<lambda>op. \<not> storeFails (sampleEnv FetchRejected FetchRejected
                                    (\<lambda>op. op = UpdateUserStats)) op)
        (trackingOps ''u1'' freshStore)
   \<and> snd (trackHintUsage (sampleEnv FetchRejected FetchRejected (\<lambda>op. op = UpdateUserStats))
             ''u1'' sampleBoard 3 freshStore) = \<lparr>tracked = True, hintPoints = 6\<rparr>
   \<and> userStats (fst (trackHintUsage (sampleEnv FetchRejected FetchRejected (\<lambda>op. op = UpdateUserStats))
             ''u1'' sampleBoard 3 freshStore))
       = [\<lparr>us_userId = ''u1'', us_totalPoints = 6, us_updatedAt = 1714550000\<rparr>]
   \<and> dbOps (newCalls freshStore
         (fst (trackHintUsage (sampleEnv FetchRejected FetchRejected (\<lambda>op. op = UpdateUserStats))
             ''u1'' sampleBoard 3 freshStore)))
       = [SelectGameSessions, UpdateGameSessions, SelectUserStats, InsertUserStats,
          InsertPointTransactions]"
proof -
  let ?e = "sampleEnv FetchRejected FetchRejected (\<lambda>op. op = InsertUserStats)"
  let ?f = "sampleEnv FetchRejected FetchRejected (\<lambda>op. op = UpdateUserStats)"
  let ?a = "afterTrackedHint ?e ''u1'' 3 sampleSession sampleStore"
  let ?b = "afterTrackedHint ?f ''u1'' 3 sampleSession freshStore"
  have h1: "filter (\<lambda>x. gs_userId x = ''u1'') (gameSessions sampleStore) = sampleSession # []"
    by (simp add: sampleStore_def sampleSession_def)
  have h2: "gs_board sampleSession = sampleBoard" by (simp add: sampleSession_def)
  have h3: "\<forall>op \<in> set (trackingOps ''u1'' sampleStore). \<not> storeFails ?e op"
    by (simp add: trackingOps_def sampleStore_def sampleEnv_def)
  have h4: "filter (\<lambda>x. gs_userId x = ''u1'') (gameSessions freshStore) = sampleSession # []"
    by (simp add: freshStore_def sampleStore_def sampleSession_def)
  have h5: "\<forall>op \<in> set (trackingOps ''u1'' freshStore). \<not> storeFails ?f op"
    by (simp add: trackingOps_def freshStore_def sampleStore_def sampleEnv_def)
  note A = trackHintUsage_state_changes [where userId = "''u1''" and s = sampleStore
      and session = sampleSession and rest = "[]" and originalBoard = sampleBoard and e = ?e
      and techniqueLevel = 3]
  note B = trackHintUsage_state_changes [where userId = "''u1''" and s = freshStore
      and session = sampleSession and rest = "[]" and originalBoard = sampleBoard and e = ?f
      and techniqueLevel = 3]
  from A h1 h2 h3
  have runA: "trackHintUsage ?e ''u1'' sampleBoard 3 sampleStore
      = (?a, \<lparr>tracked = True, hintPoints = 2 * 3\<rparr>)"
    by blast
  from B h4 h2 h5
  have runB: "trackHintUsage ?f ''u1'' sampleBoard 3 freshStore
      = (?b, \<lparr>tracked = True, hintPoints = 2 * 3\<rparr>)"
    by blast
  from A have gsA: "gameSessions ?a =
         map (\<lambda>x. if gs_userId x = ''u1''
                   then x\<lparr>gs_hintUsed := True, gs_hintsCount := gs_hintsCount sampleSession + 1\<rparr>
                   else x) (gameSessions sampleStore)"
    by blast
  from A have usA: "userStats ?a =
         (case filter (\<lambda>x. us_userId x = ''u1'') (userStats sampleStore) of
            st # _ \<Rightarrow>
              map (\<lambda>x. if us_userId x = ''u1''
                        then x\<lparr>us_totalPoints := us_totalPoints st + 2 * 3,
                               us_updatedAt := now ?e\<rparr>
                        else x) (userStats sampleStore)
          | [] \<Rightarrow> userStats sampleStore @
              [\<lparr>us_userId = ''u1'', us_totalPoints = 2 * 3,
                us_updatedAt = defaultUpdatedAt ?e\<rparr>])"
    by blast
  from B have usB: "userStats ?b =
         (case filter (\<lambda>x. us_userId x = ''u1'') (userStats freshStore) of
            st # _ \<Rightarrow>
              map (\<lambda>x. if us_userId x = ''u1''
                        then x\<lparr>us_totalPoints := us_totalPoints st + 2 * 3,
                               us_updatedAt := now ?f\<rparr>
                        else x) (userStats freshStore)
          | [] \<Rightarrow> userStats freshStore @
              [\<lparr>us_userId = ''u1'', us_totalPoints = 2 * 3,
                us_updatedAt = defaultUpdatedAt ?f\<rparr>])"
    by blast
  from B have opsB: "dbOps (newCalls freshStore ?b) =
         [SelectGameSessions, UpdateGameSessions, SelectUserStats,
          if filter (\<lambda>x. us_userId x = ''u1'') (userStats freshStore) = []
          then InsertUserStats else UpdateUserStats,
          InsertPointTransactions]"
    by blast
  have c1: "gameSessions (fst (trackHintUsage ?e ''u1'' sampleBoard 3 sampleStore))
       = [sampleSession\<lparr>gs_hintUsed := True, gs_hintsCount := 1\<rparr>]"
    unfolding runA fst_conv gsA by (simp add: sampleStore_def sampleSession_def)
  have c2: "userStats (fst (trackHintUsage ?e ''u1'' sampleBoard 3 sampleStore))
       = [\<lparr>us_userId = ''u1'', us_totalPoints = 46, us_updatedAt = 1714550000\<rparr>]"
    unfolding runA fst_conv usA by (simp add: sampleStore_def sampleEnv_def)
  have c3: "userStats (fst (trackHintUsage ?f ''u1'' sampleBoard 3 freshStore))
       = [\<lparr>us_userId = ''u1'', us_totalPoints = 6, us_updatedAt = 1714550000\<rparr>]"
    unfolding runB fst_conv usB by (simp add: freshStore_def sampleStore_def sampleEnv_def)
  have c4: "dbOps (newCalls freshStore (fst (trackHintUsage ?f ''u1'' sampleBoard 3 freshStore)))
       = [SelectGameSessions, UpdateGameSessions, SelectUserStats, InsertUserStats,
          InsertPointTransactions]"
    unfolding runB fst_conv opsB by (simp add: freshStore_def sampleStore_def)
  have r1: "snd (trackHintUsage ?e ''u1'' sampleBoard 3 sampleStore)
      = \<lparr>tracked = True, hintPoints = 6\<rparr>"
    unfolding runA snd_conv by simp
  have r2: "snd (trackHintUsage ?f ''u1'' sampleBoard 3 freshStore)
      = \<lparr>tracked = True, hintPoints = 6\<rparr>"
    unfolding runB snd_conv by simp
  from h3 have l3: "list_all (\<lambda>op. \<not> storeFails ?e op) (trackingOps ''u1'' sampleStore)"
    by (simp only: list_all_iff)
  from h5 have l5: "list_all (\<lambda>op. \<not> storeFails ?f op) (trackingOps ''u1'' freshStore)"
    by (simp only: list_all_iff)
  show ?thesis
    by (intro conjI) (rule h1 h2 l3 h4 l5 c1 c2 c3 c4 r1 r2)+
qed

text \<open>
  The claim as the spec states it fails when the filtered call fails by throwing: the
  solver answers the filtered query with status 500, the handler makes that one query
  only, and the response is 503, although the same request without the filter is answered
  200 with a hint of level 2.
\<close>

theorem filtered_call_thrown_counterexample:
  "truthy (query_techniques (sampleRequest (Some ''7'') None None))
   \<and> proxySolverRequest
        (sampleEnv (FetchResponse 500 None)
                   (FetchResponse 200 (Some (hintOfLevel (Some 2)))) (\<lambda>_. False))
        (queryOf (sampleRequest (Some ''7'') None None) (Some ''7''))
      = Inl (SolverServiceError 500)
   \<and> solverQueries (newCalls sampleStore (fst (handleSolveRequest
        (sampleEnv (FetchResponse 500 None)
                   (FetchResponse 200 (Some (hintOfLevel (Some 2)))) (\<lambda>_. False))
        (sampleRequest (Some ''7'') None None) sampleStore)))
      = [queryOf (sampleRequest (Some ''7'') None None) (Some ''7'')]
   \<and> snd (handleSolveRequest
        (sampleEnv (FetchResponse 500 None)
                   (FetchResponse 200 (Some (hintOfLevel (Some 2)))) (\<lambda>_. False))
        (sampleRequest (Some ''7'') None None) sampleStore)
      = \<lparr>status = 503, body = Failure ''Solver service unavailable''\<rparr>
   \<and> snd (handleSolveRequest
        (sampleEnv (FetchResponse 500 None)
                   (FetchResponse 200 (Some (hintOfLevel (Some 2)))) (\<lambda>_. False))
        (sampleRequest None None None) sampleStore)
      = \<lparr>status = 200, body = Success \<lparr>sd_hints_level = Some 2, sd_payload = ''board''\<rparr> None\<rparr>"
proof -
  let ?e = "sampleEnv (FetchResponse 500 None)
                   (FetchResponse 200 (Some (hintOfLevel (Some 2)))) (\<lambda>_. False)"
  let ?c = "sampleRequest (Some ''7'') None None"
  let ?d = "sampleRequest None None None"
  have qt: "query_techniques ?c = Some ''7''" by (simp add: sampleRequest_def)
  have h1: "truthy (query_techniques ?c)" by (simp add: truthy_def sampleRequest_def)
  have h2: "proxySolverRequest ?e (queryOf ?c (Some ''7'')) = Inl (SolverServiceError 500)"
    by (simp add: proxySolverRequest_def sampleEnv_def queryOf_def response_ok_def)
  from h2 qt have h2': "proxySolverRequest ?e (queryOf ?c (query_techniques ?c))
      = Inl (SolverServiceError 500)"
    by simp
  have q: "solverQueries (newCalls sampleStore (fst (handleSolveRequest ?e ?c sampleStore)))
      = [queryOf ?c (Some ''7'')]"
    unfolding handleSolveRequest_queries using h1 h2' qt by simp
  have r: "snd (handleSolveRequest ?e ?c sampleStore)
      = \<lparr>status = 503, body = Failure ''Solver service unavailable''\<rparr>"
    unfolding filtered_call_thrown_no_retry [OF h1 h2'] by simp
  have r0: "snd (handleSolveRequest ?e ?d sampleStore)
      = \<lparr>status = 200, body = Success \<lparr>sd_hints_level = Some 2, sd_payload = ''board''\<rparr> None\<rparr>"
    by (simp add: handler_defs sample_defs)
  show ?thesis by (intro conjI) (rule h1 h2 q r r0)+
qed

text \<open>
  Claim C5, amended. When a non-empty \<open>techniques\<close> parameter is given and the filtered
  call returns an answer that is unsuccessful, has no data, or has a hint of level 0, the
  handler queries the solver exactly twice, first with the filter and then without it, and
  its response and the resulting tables are those of the same request sent without the
  filter. When the filtered call throws (network failure, status outside 2xx, timeout)
  there is no second query and the response is 503. Without a filter the solver is queried
  exactly once, without a filter.
\<close>

theorem filtered_call_falls_back_once:
  "(needsFallback r \<longleftrightarrow>
      \<not> sr_success r \<or> sr_data r = None
      \<or> (\<exists>d. sr_data r = Some d \<and> sd_hints_level d = Some 0))
   \<and> (truthy (query_techniques c)
        \<and> proxySolverRequest e (queryOf c (query_techniques c)) = Inr r \<and> needsFallback r
      \<longrightarrow> solverQueries (newCalls s (fst (handleSolveRequest e c s)))
            = [queryOf c (query_techniques c), queryOf c None]
        \<and> snd (handleSolveRequest e c s)
            = snd (handleSolveRequest e (c\<lparr>query_techniques := None\<rparr>) s)
        \<and> tablesOf (fst (handleSolveRequest e c s))
            = tablesOf (fst (handleSolveRequest e (c\<lparr>query_techniques := None\<rparr>) s)))
   \<and> (truthy (query_techniques c)
        \<and> proxySolverRequest e (queryOf c (query_techniques c)) = Inl x
      \<longrightarrow> handleSolveRequest e c s =
            (s\<lparr>calls := calls s @ [SolverCall (queryOf c (query_techniques c))]\<rparr>,
             \<lparr>status = 503, body = Failure ''Solver service unavailable''\<rparr>))
   \<and> (\<not> truthy (query_techniques c)
      \<longrightarrow> solverQueries (newCalls s (fst (handleSolveRequest e c s))) = [queryOf c None])"
proof (intro conjI impI)
  assume "truthy (query_techniques c)
        \<and> proxySolverRequest e (queryOf c (query_techniques c)) = Inl x"
  then show "handleSolveRequest e c s =
            (s\<lparr>calls := calls s @ [SolverCall (queryOf c (query_techniques c))]\<rparr>,
             \<lparr>status = 503, body = Failure ''Solver service unavailable''\<rparr>)"
    by (blast intro: filtered_call_thrown_no_retry)
next
  show "needsFallback r \<longleftrightarrow>
      \<not> sr_success r \<or> sr_data r = None
      \<or> (\<exists>d. sr_data r = Some d \<and> sd_hints_level d = Some 0)"
    by (cases "sr_data r") (simp_all add: needsFallback_def)
next
  assume "\<not> truthy (query_techniques c)"
  then show "solverQueries (newCalls s (fst (handleSolveRequest e c s))) = [queryOf c None]"
    by (simp add: handleSolveRequest_queries)
next
  assume a: "truthy (query_techniques c)
        \<and> proxySolverRequest e (queryOf c (query_techniques c)) = Inr r \<and> needsFallback r"
  then show "solverQueries (newCalls s (fst (handleSolveRequest e c s)))
            = [queryOf c (query_techniques c), queryOf c None]"
    by (simp add: handleSolveRequest_queries)
  let ?c = "c\<lparr>query_techniques := None\<rparr>"
  from a solverStage_filtered [of c e s]
  have s1: "solverStage e c s =
      (s\<lparr>calls := calls s @ [SolverCall (queryOf c (query_techniques c)), SolverCall (queryOf c None)]\<rparr>,
       proxySolverRequest e (queryOf c None))"
    by simp
  have "\<not> truthy (query_techniques ?c)" by (simp add: truthy_def)
  from solverStage_generic [OF this, of e s]
  have s2: "solverStage e ?c s =
      (s\<lparr>calls := calls s @ [SolverCall (queryOf c None)]\<rparr>, proxySolverRequest e (queryOf c None))"
    by simp
  have eq: "snd (handleSolveRequest e c s) = snd (handleSolveRequest e ?c s)
      \<and> tablesOf (fst (handleSolveRequest e c s)) = tablesOf (fst (handleSolveRequest e ?c s))"
    by (rule handleSolveRequest_tables_only [OF s1 s2])
       (simp_all add: tablesOf_def uidOf_def)
  from eq show "snd (handleSolveRequest e c s) = snd (handleSolveRequest e ?c s)" by blast
  from eq show "tablesOf (fst (handleSolveRequest e c s))
      = tablesOf (fst (handleSolveRequest e ?c s))" by blast
qed

text \<open>A filter on technique 7: a filtered answer of level 0 with a generic answer of
  level 2 gives two queries and a response of level 2; a filtered call aborted by the timer
  gives 503.\<close>

theorem filtered_call_falls_back_once_witness:
  "truthy (query_techniques (sampleRequest (Some ''7'') None None))
   \<and> proxySolverRequest
        (sampleEnv (FetchResponse 200 (Some (hintOfLevel (Some 0))))
                   (FetchResponse 200 (Some (hintOfLevel (Some 2)))) (\<lambda>_. False))
        (queryOf (sampleRequest (Some ''7'') None None) (Some ''7'')) = Inr (hintOfLevel (Some 0))
   \<and> needsFallback (hintOfLevel (Some 0))
   \<and> solverQueries (newCalls sampleStore (fst (handleSolveRequest
        (sampleEnv (FetchResponse 200 (Some (hintOfLevel (Some 0))))
                   (FetchResponse 200 (Some (hintOfLevel (Some 2)))) (\<lambda>_. False))
        (sampleRequest (Some ''7'') None None) sampleStore)))
      = [queryOf (sampleRequest (Some ''7'') None None) (Some ''7''),
         queryOf (sampleRequest (Some ''7'') None None) None]
   \<and> snd (handleSolveRequest
        (sampleEnv (FetchResponse 200 (Some (hintOfLevel (Some 0))))
                   (FetchResponse 200 (Some (hintOfLevel (Some 2)))) (\<lambda>_. False))
        (sampleRequest (Some ''7'') None None) sampleStore)
      = \<lparr>status = 200, body = Success \<lparr>sd_hints_level = Some 2, sd_payload = ''board''\<rparr> None\<rparr>
   \<and> proxySolverRequest
        (sampleEnv FetchAborted (FetchResponse 200 (Some (hintOfLevel (Some 2)))) (\<lambda>_. False))
        (queryOf (sampleRequest (Some ''7'') None None) (Some ''7''))
      = Inl (SolverServiceTimeout 120)
   \<and> snd (handleSolveRequest
        (sampleEnv FetchAborted (FetchResponse 200 (Some (hintOfLevel (Some 2)))) (\<lambda>_. False))
        (sampleRequest (Some ''7'') None None) sampleStore)
      = \<lparr>status = 503, body = Failure ''Solver service unavailable''\<rparr>
   \<and> \<not> truthy (query_techniques (sampleRequest None None None))
   \<and> solverQueries (newCalls sampleStore (fst (handleSolveRequest
        (sampleEnv (FetchResponse 200 (Some (hintOfLevel (Some 0))))
                   (FetchResponse 200 (Some (hintOfLevel (Some 2)))) (\<lambda>_. False))
        (sampleRequest None None None) sampleStore)))
      = [queryOf (sampleRequest None None None) None]"
proof -
  let ?e = "sampleEnv (FetchResponse 200 (Some (hintOfLevel (Some 0))))
                   (FetchResponse 200 (Some (hintOfLevel (Some 2)))) (\<lambda>_. False)"
  let ?t = "sampleEnv FetchAborted (FetchResponse 200 (Some (hintOfLevel (Some 2)))) (\<lambda>_. False)"
  let ?c = "sampleRequest (Some ''7'') None None"
  let ?d = "sampleRequest None None None"
  have h1: "truthy (query_techniques ?c)" by (simp add: truthy_def sampleRequest_def)
  have qt: "query_techniques ?c = Some ''7''" by (simp add: sampleRequest_def)
  have h2: "proxySolverRequest ?e (queryOf ?c (Some ''7'')) = Inr (hintOfLevel (Some 0))"
    by (simp add: proxySolverRequest_def sampleEnv_def queryOf_def response_ok_def)
  have h3: "needsFallback (hintOfLevel (Some 0))"
    by (simp add: needsFallback_def hintOfLevel_def)
  have h4: "\<not> truthy (query_techniques ?d)" by (simp add: truthy_def sampleRequest_def)
  have h5: "proxySolverRequest ?t (queryOf ?c (Some ''7'')) = Inl (SolverServiceTimeout 120)"
    by (simp add: proxySolverRequest_def sampleEnv_def queryOf_def SOLVER_TIMEOUT_MS_def)
  have upd: "?c\<lparr>query_techniques := None\<rparr> = ?d" by (simp add: sampleRequest_def)
  have r0: "snd (handleSolveRequest ?e ?d sampleStore)
      = \<lparr>status = 200, body = Success \<lparr>sd_hints_level = Some 2, sd_payload = ''board''\<rparr> None\<rparr>"
    by (simp add: handler_defs sample_defs)
  note A = filtered_call_falls_back_once [where c = ?c and e = ?e and r = "hintOfLevel (Some 0)"
      and s = sampleStore, unfolded qt upd]
  note B = filtered_call_falls_back_once [where c = ?c and e = ?t and s = sampleStore
      and x = "SolverServiceTimeout 120", unfolded qt]
  note C = filtered_call_falls_back_once [where c = ?d and e = ?e and s = sampleStore]
  from h1 have h1': "truthy (Some ''7'')" by (simp only: qt)
  from A h1' h2 h3
  have a1: "solverQueries (newCalls sampleStore (fst (handleSolveRequest ?e ?c sampleStore)))
      = [queryOf ?c (Some ''7''), queryOf ?c None]"
    and a2: "snd (handleSolveRequest ?e ?c sampleStore) = snd (handleSolveRequest ?e ?d sampleStore)"
    by blast+
  from B h1' h5
  have b1: "handleSolveRequest ?t ?c sampleStore =
      (sampleStore\<lparr>calls := calls sampleStore @ [SolverCall (queryOf ?c (Some ''7''))]\<rparr>,
       \<lparr>status = 503, body = Failure ''Solver service unavailable''\<rparr>)"
    by blast
  from C h4
  have c1: "solverQueries (newCalls sampleStore (fst (handleSolveRequest ?e ?d sampleStore)))
      = [queryOf ?d None]"
    by blast
  from a2 r0 have a3: "snd (handleSolveRequest ?e ?c sampleStore)
      = \<lparr>status = 200, body = Success \<lparr>sd_hints_level = Some 2, sd_payload = ''board''\<rparr> None\<rparr>"
    by simp
  have b2: "snd (handleSolveRequest ?t ?c sampleStore)
      = \<lparr>status = 503, body = Failure ''Solver service unavailable''\<rparr>"
    unfolding b1 by simp
  show ?thesis by (intro conjI) (rule h1 h2 h3 h4 h5 a1 a3 b2 c1)+
qed

text \<open>
  Claim C6. Whatever a store call throws inside \<open>trackHintUsage\<close>, the function returns
  \<open>tracked = false, hintPoints = 0\<close>: the \<open>catch\<close> block maps every thrown value to it, and
  so a run in which any issued store call throws ends with that result. In the handler, a
  successful solver answer that is not denied is always answered 200 with the solver's
  data, for every pattern of store failures; \<open>trackHintUsage\<close> runs only when the request
  has a \<open>firebaseUser\<close> with a non-empty \<open>uid\<close>, and the points are attached exactly when
  \<open>tracked\<close> is true.
\<close>

theorem tracking_failure_is_swallowed:
  "(trackHintUsage_try e u b l s = (s', Inl x) \<longrightarrow> trackHintUsage e u b l s = (s', notTracked))
   \<and> (trackHintUsage e u b l s = (s', r) \<and> DbCall op \<in> set (newCalls s s') \<and> storeFails e op
      \<longrightarrow> r = \<lparr>tracked = False, hintPoints = 0\<rparr>)
   \<and> (solverStage e c s = (s1, Inr result) \<and> sr_success result \<and> sr_data result = Some dat
        \<and> \<not> denied c dat
      \<longrightarrow> handleSolveRequest e c s =
           (case uidOf c of
              None \<Rightarrow> (s1, \<lparr>status = 200, body = Success dat None\<rparr>)
            | Some u \<Rightarrow>
                (fst (trackHintUsage e u (orElse (query_original c) [])
                        (orElse (sd_hints_level dat) 1) s1),
                 \<lparr>status = 200,
                  body = Success dat
                    (if tracked (snd (trackHintUsage e u (orElse (query_original c) [])
                                        (orElse (sd_hints_level dat) 1) s1))
                     then Some \<lparr>pe_points =
                                  hintPoints (snd (trackHintUsage e u (orElse (query_original c) [])
                                                     (orElse (sd_hints_level dat) 1) s1)),
                                pe_techniqueLevel = orElse (sd_hints_level dat) 1\<rparr>
                     else None)\<rparr>)))"
proof (intro conjI impI)
  assume "trackHintUsage_try e u b l s = (s', Inl x)"
  then show "trackHintUsage e u b l s = (s', notTracked)"
    by (simp add: trackHintUsage_def)
next
  assume "trackHintUsage e u b l s = (s', r) \<and> DbCall op \<in> set (newCalls s s') \<and> storeFails e op"
  then have "r = notTracked" by (blast intro: trackHintUsage_thrown)
  then show "r = \<lparr>tracked = False, hintPoints = 0\<rparr>" by (simp add: notTracked_def)
next
  assume "solverStage e c s = (s1, Inr result) \<and> sr_success result \<and> sr_data result = Some dat
        \<and> \<not> denied c dat"
  then show "handleSolveRequest e c s =
           (case uidOf c of
              None \<Rightarrow> (s1, \<lparr>status = 200, body = Success dat None\<rparr>)
            | Some u \<Rightarrow>
                (fst (trackHintUsage e u (orElse (query_original c) [])
                        (orElse (sd_hints_level dat) 1) s1),
                 \<lparr>status = 200,
                  body = Success dat
                    (if tracked (snd (trackHintUsage e u (orElse (query_original c) [])
                                        (orElse (sd_hints_level dat) 1) s1))
                     then Some \<lparr>pe_points =
                                  hintPoints (snd (trackHintUsage e u (orElse (query_original c) [])
                                                     (orElse (sd_hints_level dat) 1) s1)),
                                pe_techniqueLevel = orElse (sd_hints_level dat) 1\<rparr>
                     else None)\<rparr>))"
    by (blast intro: handleSolveRequest_allowed)
qed

text \<open>The insert of the transaction throws, and, in a whole request, the first select
  throws: not tracked, and the response is 200 without points.\<close>

theorem tracking_failure_is_swallowed_witness:
  "trackHintUsage_try (sampleEnv FetchRejected FetchRejected (\<lambda>op. op = InsertPointTransactions))
       ''u1'' sampleBoard 3 sampleStore
     = (fst (trackHintUsage_try (sampleEnv FetchRejected FetchRejected (\<lambda>op. op = InsertPointTransactions))
               ''u1'' sampleBoard 3 sampleStore), Inl StoreUnavailable)
   \<and> DbCall InsertPointTransactions \<in> set (newCalls sampleStore
         (fst (trackHintUsage (sampleEnv FetchRejected FetchRejected (\<lambda>op. op = InsertPointTransactions))
               ''u1'' sampleBoard 3 sampleStore)))
   \<and> storeFails (sampleEnv FetchRejected FetchRejected (\<lambda>op. op = InsertPointTransactions))
         InsertPointTransactions
   \<and> snd (trackHintUsage (sampleEnv FetchRejected FetchRejected (\<lambda>op. op = InsertPointTransactions))
               ''u1'' sampleBoard 3 sampleStore) = \<lparr>tracked = False, hintPoints = 0\<rparr>
   \<and> solverStage
         (sampleEnv FetchRejected (FetchResponse 200 (Some (hintOfLevel (Some 3))))
            (\<lambda>op. op = SelectGameSessions))
         (sampleRequest None None (Some \<lparr>uid = ''u1''\<rparr>)) sampleStore
       = (sampleStore\<lparr>calls := [SolverCall (queryOf (sampleRequest None None None) None)]\<rparr>,
          Inr (hintOfLevel (Some 3)))
   \<and> \<not> denied (sampleRequest None None (Some \<lparr>uid = ''u1''\<rparr>))
           \<lparr>sd_hints_level = Some 3, sd_payload = ''board''\<rparr>
   \<and> snd (handleSolveRequest
         (sampleEnv FetchRejected (FetchResponse 200 (Some (hintOfLevel (Some 3))))
            (\<lambda>op. op = SelectGameSessions))
         (sampleRequest None None (Some \<lparr>uid = ''u1''\<rparr>)) sampleStore)
       = \<lparr>status = 200,
          body = Success \<lparr>sd_hints_level = Some 3, sd_payload = ''board''\<rparr> None\<rparr>"
proof -
  let ?e = "sampleEnv FetchRejected FetchRejected (\<lambda>op. op = InsertPointTransactions)"
  let ?f = "sampleEnv FetchRejected (FetchResponse 200 (Some (hintOfLevel (Some 3))))
            (\<lambda>op. op = SelectGameSessions)"
  let ?c = "sampleRequest None None (Some \<lparr>uid = ''u1''\<rparr>)"
  let ?dat = "\<lparr>sd_hints_level = Some 3, sd_payload = ''board''\<rparr>"
  let ?s1 = "sampleStore\<lparr>calls := [SolverCall (queryOf (sampleRequest None None None) None)]\<rparr>"
  have h1: "trackHintUsage_try ?e ''u1'' sampleBoard 3 sampleStore
     = (fst (trackHintUsage_try ?e ''u1'' sampleBoard 3 sampleStore), Inl StoreUnavailable)"
    by (simp add: track_defs sample_defs)
  have h2: "trackHintUsage ?e ''u1'' sampleBoard 3 sampleStore
     = (fst (trackHintUsage ?e ''u1'' sampleBoard 3 sampleStore),
        snd (trackHintUsage ?e ''u1'' sampleBoard 3 sampleStore))"
    by simp
  have h3: "DbCall InsertPointTransactions \<in> set (newCalls sampleStore
         (fst (trackHintUsage ?e ''u1'' sampleBoard 3 sampleStore)))"
    by (simp add: newCalls_def track_defs sample_defs)
  have h4: "storeFails ?e InsertPointTransactions" by (simp add: sampleEnv_def)
  have h5: "solverStage ?f ?c sampleStore = (?s1, Inr (hintOfLevel (Some 3)))"
    by (simp add: solverStage_def handler_defs queryOf_def sample_defs)
  have h6: "sr_success (hintOfLevel (Some 3)) \<and> sr_data (hintOfLevel (Some 3)) = Some ?dat"
    by (simp add: hintOfLevel_def)
  have h7: "\<not> denied ?c ?dat" by (simp add: denied_def sampleRequest_def)
  have u: "uidOf ?c = Some ''u1''" by (simp add: uidOf_def sampleRequest_def)
  have t: "snd (trackHintUsage ?f ''u1'' (orElse (query_original ?c) []) (orElse (sd_hints_level ?dat) 1) ?s1)
      = notTracked"
    by (simp add: track_defs sample_defs orElse_def)
  from tracking_failure_is_swallowed [where e = ?e and u = "''u1''" and b = sampleBoard and l = 3
      and s = sampleStore and x = StoreUnavailable and op = InsertPointTransactions
      and s' = "fst (trackHintUsage ?e ''u1'' sampleBoard 3 sampleStore)"
      and r = "snd (trackHintUsage ?e ''u1'' sampleBoard 3 sampleStore)"]
    tracking_failure_is_swallowed [where e = ?f and c = ?c and s = sampleStore and ?s1.0 = ?s1
      and result = "hintOfLevel (Some 3)" and dat = ?dat]
    h1 h2 h3 h4 h5 h6 h7 u t
  show ?thesis by (simp add: notTracked_def)
qed

text \<open>
  Claim C7. If the solver stage ends with an answer that is unsuccessful or has no data,
  the response is 400 with the solver's \<open>code: message\<close> (or \<open>Solver error\<close> when the answer
  has no error object). If the solver stage throws, the response is 503 with
  \<open>Solver service unavailable\<close>; the response is 503 exactly when a solver call made for
  the request threw. A call throws exactly when \<open>fetch\<close> is rejected, is aborted by the
  timer, answers with a status outside 2xx, or answers with a body that is not JSON; the
  abort is thrown as the timeout error of 120 seconds (\<open>SOLVER_TIMEOUT_MS / 1000\<close>). The
  passing of time itself is not modelled: the timer's abort is an outcome of \<open>fetch\<close>.
\<close>

theorem solve_failure_taxonomy:
  "(solverStage e c s = (s1, Inr result) \<and> (\<not> sr_success result \<or> sr_data result = None)
      \<longrightarrow> handleSolveRequest e c s =
            (s1, \<lparr>status = 400, body = Failure (solverErrorMessage result)\<rparr>)
        \<and> (\<forall>err. sr_error result = Some err
              \<longrightarrow> solverErrorMessage result = se_code err @ '': '' @ se_message err))
   \<and> (solverStage e c s = (s1, Inl x)
      \<longrightarrow> handleSolveRequest e c s =
            (s1, \<lparr>status = 503, body = Failure ''Solver service unavailable''\<rparr>))
   \<and> (status (snd (handleSolveRequest e c s)) = 503 \<longleftrightarrow>
        (\<exists>q \<in> set (solverQueries (newCalls s (fst (handleSolveRequest e c s)))).
           isThrown (proxySolverRequest e q)))
   \<and> (isThrown (proxySolverRequest e q) \<longleftrightarrow>
        (case fetch e q of FetchResponse st b \<Rightarrow> \<not> response_ok st \<or> b = None | _ \<Rightarrow> True))
   \<and> (fetch e q = FetchAborted \<longrightarrow> proxySolverRequest e q = Inl (SolverServiceTimeout 120))"
proof (intro conjI impI allI)
  assume a: "solverStage e c s = (s1, Inr result) \<and> (\<not> sr_success result \<or> sr_data result = None)"
  then show "handleSolveRequest e c s =
            (s1, \<lparr>status = 400, body = Failure (solverErrorMessage result)\<rparr>)"
    by (blast intro: handleSolveRequest_solver_error)
  fix err
  assume "sr_error result = Some err"
  then show "solverErrorMessage result = se_code err @ '': '' @ se_message err"
    by (simp add: solverErrorMessage_def)
next
  assume "solverStage e c s = (s1, Inl x)"
  then show "handleSolveRequest e c s =
            (s1, \<lparr>status = 503, body = Failure ''Solver service unavailable''\<rparr>)"
    by (rule handleSolveRequest_thrown)
next
  show "status (snd (handleSolveRequest e c s)) = 503 \<longleftrightarrow>
        (\<exists>q \<in> set (solverQueries (newCalls s (fst (handleSolveRequest e c s)))).
           isThrown (proxySolverRequest e q))"
    by (rule handleSolveRequest_503)
next
  show "isThrown (proxySolverRequest e q) \<longleftrightarrow>
        (case fetch e q of FetchResponse st b \<Rightarrow> \<not> response_ok st \<or> b = None | _ \<Rightarrow> True)"
    by (rule isThrown_proxySolverRequest)
next
  assume "fetch e q = FetchAborted"
  then show "proxySolverRequest e q = Inl (SolverServiceTimeout 120)"
    by (simp add: proxySolverRequest_def SOLVER_TIMEOUT_MS_def)
qed

text \<open>A solver that rejects the puzzle, and a solver call aborted by the timer.\<close>

theorem solve_failure_taxonomy_witness:
  "solverStage
      (sampleEnv FetchRejected
         (FetchResponse 200 (Some \<lparr>sr_success = False,
            sr_error = Some \<lparr>se_code = ''INVALID_PUZZLE'', se_message = ''no solution''\<rparr>,
            sr_data = None\<rparr>)) (\<lambda>_. False))
      (sampleRequest None None None) sampleStore
    = (sampleStore\<lparr>calls := [SolverCall (queryOf (sampleRequest None None None) None)]\<rparr>,
       Inr \<lparr>sr_success = False,
            sr_error = Some \<lparr>se_code = ''INVALID_PUZZLE'', se_message = ''no solution''\<rparr>,
            sr_data = None\<rparr>)
   \<and> snd (handleSolveRequest
      (sampleEnv FetchRejected
         (FetchResponse 200 (Some \<lparr>sr_success = False,
            sr_error = Some \<lparr>se_code = ''INVALID_PUZZLE'', se_message = ''no solution''\<rparr>,
            sr_data = None\<rparr>)) (\<lambda>_. False))
      (sampleRequest None None None) sampleStore)
    = \<lparr>status = 400, body = Failure ''INVALID_PUZZLE: no solution''\<rparr>
   \<and> solverStage (sampleEnv FetchRejected FetchAborted (\<lambda>_. False))
        (sampleRequest None None None) sampleStore
    = (sampleStore\<lparr>calls := [SolverCall (queryOf (sampleRequest None None None) None)]\<rparr>,
       Inl (SolverServiceTimeout 120))
   \<and> fetch (sampleEnv FetchRejected FetchAborted (\<lambda>_. False))
         (queryOf (sampleRequest None None None) None) = FetchAborted
   \<and> snd (handleSolveRequest (sampleEnv FetchRejected FetchAborted (\<lambda>_. False))
        (sampleRequest None None None) sampleStore)
    = \<lparr>status = 503, body = Failure ''Solver service unavailable''\<rparr>"
proof -
  let ?bad = "\<lparr>sr_success = False,
            sr_error = Some \<lparr>se_code = ''INVALID_PUZZLE'', se_message = ''no solution''\<rparr>,
            sr_data = None\<rparr>"
  let ?e = "sampleEnv FetchRejected (FetchResponse 200 (Some ?bad)) (\<lambda>_. False)"
  let ?f = "sampleEnv FetchRejected FetchAborted (\<lambda>_. False)"
  let ?c = "sampleRequest None None None"
  let ?s1 = "sampleStore\<lparr>calls := [SolverCall (queryOf ?c None)]\<rparr>"
  have h1: "solverStage ?e ?c sampleStore = (?s1, Inr ?bad)"
    by (simp add: solverStage_def handler_defs queryOf_def sample_defs)
  have h2: "\<not> sr_success ?bad \<or> sr_data ?bad = None" by simp
  have h3: "sr_error ?bad = Some \<lparr>se_code = ''INVALID_PUZZLE'', se_message = ''no solution''\<rparr>"
    by simp
  have h4: "fetch ?f (queryOf ?c None) = FetchAborted"
    by (simp add: sampleEnv_def queryOf_def)
  have h5: "solverStage ?f ?c sampleStore = (?s1, Inl (SolverServiceTimeout 120))"
    by (simp add: solverStage_def handler_defs queryOf_def sample_defs SOLVER_TIMEOUT_MS_def)
  from solve_failure_taxonomy [where e = ?e and c = ?c and s = sampleStore and ?s1.0 = ?s1
      and result = ?bad]
    solve_failure_taxonomy [where e = ?f and c = ?c and s = sampleStore and ?s1.0 = ?s1
      and x = "SolverServiceTimeout 120" and q = "queryOf ?c None"]
    h1 h2 h3 h4 h5
  show ?thesis by simp
qed

text \<open>
  Claim C8, on the resolver modelled from the spec. The resolver is a function of the
  caller, so each caller gets exactly one decision, by the first matching rule: an
  administrator is unbounded whatever the lookup gave; a \<open>red_belt\<close> holder is unbounded; a
  \<open>blue_belt\<close> holder without \<open>red_belt\<close> gets 5; a verified caller with neither gets 3; a
  failed entitlement lookup gets 3; a caller without a usable credential gets 3. The
  maximum is always the one the tier table gives for the resolved user state.
\<close>

theorem hintAccessCheck_tiers:
  "hintAccessCheck (Verified True lookup) = \<lparr>maxHintLevel = Unbounded, userState = Admin\<rparr>
   \<and> (''red_belt'' \<in> set es \<longrightarrow>
        hintAccessCheck (Verified False (Entitlements es))
          = \<lparr>maxHintLevel = Unbounded, userState = Red_belt\<rparr>)
   \<and> (''red_belt'' \<notin> set es \<and> ''blue_belt'' \<in> set es \<longrightarrow>
        hintAccessCheck (Verified False (Entitlements es))
          = \<lparr>maxHintLevel = Level 5, userState = Blue_belt\<rparr>)
   \<and> (''red_belt'' \<notin> set es \<and> ''blue_belt'' \<notin> set es \<longrightarrow>
        hintAccessCheck (Verified False (Entitlements es))
          = \<lparr>maxHintLevel = Level 3, userState = Free\<rparr>)
   \<and> maxHintLevel (hintAccessCheck (Verified False LookupFailed)) = Level 3
   \<and> hintAccessCheck NoCredential = \<lparr>maxHintLevel = Level 3, userState = Anonymous\<rparr>
   \<and> hintAccessCheck Unverified = \<lparr>maxHintLevel = Level 3, userState = Anonymous\<rparr>
   \<and> maxHintLevel (hintAccessCheck c) = tierMaxHintLevel (userState (hintAccessCheck c))"
proof -
  have "maxHintLevel (hintAccessCheck c) = tierMaxHintLevel (userState (hintAccessCheck c))"
    by (simp add: hintAccessCheck_def tierMaxHintLevel_def
          split: caller.splits entitlement_lookup.splits)
  then show ?thesis by (simp add: hintAccessCheck_def)
qed

text \<open>Holders of both belts, of \<open>blue_belt\<close> only, and of none.\<close>

theorem hintAccessCheck_tiers_witness:
  "''red_belt'' \<in> set [''blue_belt'', ''red_belt'']
   \<and> hintAccessCheck (Verified False (Entitlements [''blue_belt'', ''red_belt'']))
        = \<lparr>maxHintLevel = Unbounded, userState = Red_belt\<rparr>
   \<and> ''red_belt'' \<notin> set [''blue_belt''] \<and> ''blue_belt'' \<in> set [''blue_belt'']
   \<and> hintAccessCheck (Verified False (Entitlements [''blue_belt'']))
        = \<lparr>maxHintLevel = Level 5, userState = Blue_belt\<rparr>
   \<and> ''red_belt'' \<notin> set [] \<and> ''blue_belt'' \<notin> set []
   \<and> hintAccessCheck (Verified False (Entitlements []))
        = \<lparr>maxHintLevel = Level 3, userState = Free\<rparr>"
proof -
  have h1: "''red_belt'' \<in> set [''blue_belt'', ''red_belt'']" by simp
  have h2: "''red_belt'' \<notin> set [''blue_belt''] \<and> ''blue_belt'' \<in> set [''blue_belt'']" by simp
  have h3: "''red_belt'' \<notin> set [] \<and> ''blue_belt'' \<notin> set []" by simp
  from hintAccessCheck_tiers [where es = "[''blue_belt'', ''red_belt'']"]
    hintAccessCheck_tiers [where es = "[''blue_belt'']"]
    hintAccessCheck_tiers [where es = "[]"]
    h1 h2 h3
  show ?thesis by blast
qed

text \<open>
  Claim C9. When the context holds no access decision, the response is never 402,
  whatever the solver answers; a successful answer with data is answered 200 with that data
  at every hint level.
\<close>

theorem missing_decision_fails_open:
  assumes "ctx_hintAccess c = None"
  shows "status (snd (handleSolveRequest e c s)) \<noteq> 402
     \<and> (\<forall>s1 result dat.
           solverStage e c s = (s1, Inr result) \<and> sr_success result \<and> sr_data result = Some dat
           \<longrightarrow> (\<exists>p. snd (handleSolveRequest e c s) = \<lparr>status = 200, body = Success dat p\<rparr>))"
proof -
  have nd: "\<And>dat. \<not> denied c dat" using assms by (simp add: denied_def)
  obtain s1 v where st: "solverStage e c s = (s1, v)" by (cases "solverStage e c s")
  have a: "status (snd (handleSolveRequest e c s)) \<noteq> 402"
  proof (cases v)
    case (Inl x)
    with st handleSolveRequest_thrown [of e c s s1 x] show ?thesis by simp
  next
    case (Inr result)
    show ?thesis
    proof (cases "sr_success result \<and> sr_data result \<noteq> None")
      case False
      with st Inr handleSolveRequest_solver_error [of e c s s1 result] show ?thesis by auto
    next
      case True
      then obtain dat where d: "sr_success result" "sr_data result = Some dat" by auto
      from st Inr d nd [of dat] handleSolveRequest_allowed [of e c s s1 result dat]
      show ?thesis by (cases "uidOf c") simp_all
    qed
  qed
  have b: "\<exists>p. snd (handleSolveRequest e c s) = \<lparr>status = 200, body = Success dat p\<rparr>"
    if "solverStage e c s = (s1, Inr result)" "sr_success result" "sr_data result = Some dat"
    for s1 result dat
    using handleSolveRequest_allowed [OF that nd] by (cases "uidOf c") simp_all
  from a b show ?thesis by blast
qed

text \<open>No decision in the context and a hint of level 9: answered 200.\<close>

theorem missing_decision_fails_open_witness:
  "ctx_hintAccess (sampleRequest None None None) = None
   \<and> status (snd (handleSolveRequest
        (sampleEnv FetchRejected (FetchResponse 200 (Some (hintOfLevel (Some 9)))) (\<lambda>_. False))
        (sampleRequest None None None) sampleStore)) \<noteq> 402
   \<and> solverStage
        (sampleEnv FetchRejected (FetchResponse 200 (Some (hintOfLevel (Some 9)))) (\<lambda>_. False))
        (sampleRequest None None None) sampleStore
      = (sampleStore\<lparr>calls := [SolverCall (queryOf (sampleRequest None None None) None)]\<rparr>,
         Inr (hintOfLevel (Some 9)))
   \<and> (\<exists>p. snd (handleSolveRequest
        (sampleEnv FetchRejected (FetchResponse 200 (Some (hintOfLevel (Some 9)))) (\<lambda>_. False))
        (sampleRequest None None None) sampleStore)
      = \<lparr>status = 200,
         body = Success \<lparr>sd_hints_level = Some 9, sd_payload = ''board''\<rparr> p\<rparr>)"
proof -
  let ?e = "sampleEnv FetchRejected (FetchResponse 200 (Some (hintOfLevel (Some 9)))) (\<lambda>_. False)"
  let ?c = "sampleRequest None None None"
  let ?dat = "\<lparr>sd_hints_level = Some 9, sd_payload = ''board''\<rparr>"
  have h: "ctx_hintAccess ?c = None" by (simp add: sampleRequest_def)
  have st: "solverStage ?e ?c sampleStore
      = (sampleStore\<lparr>calls := [SolverCall (queryOf ?c None)]\<rparr>, Inr (hintOfLevel (Some 9)))"
    by (simp add: solverStage_def handler_defs queryOf_def sample_defs)
  have d: "sr_success (hintOfLevel (Some 9)) \<and> sr_data (hintOfLevel (Some 9)) = Some ?dat"
    by (simp add: hintOfLevel_def)
  from missing_decision_fails_open [OF h, of ?e sampleStore]
  have a: "status (snd (handleSolveRequest ?e ?c sampleStore)) \<noteq> 402"
    and b: "\<forall>s1 result dat.
           solverStage ?e ?c sampleStore = (s1, Inr result) \<and> sr_success result
             \<and> sr_data result = Some dat
           \<longrightarrow> (\<exists>p. snd (handleSolveRequest ?e ?c sampleStore)
                    = \<lparr>status = 200, body = Success dat p\<rparr>)"
    by blast+
  from b st d
  have "\<exists>p. snd (handleSolveRequest ?e ?c sampleStore) = \<lparr>status = 200, body = Success ?dat p\<rparr>"
    by blast
  with h a st show ?thesis by blast
qed

text \<open>
  Claim C10 at an endpoint named \<open>constructor\<close>. The table lookup finds the member
  inherited from \<open>Object.prototype\<close>, so \<open>??\<close> does not put the default of 2 in its place;
  the comparison \<open>accessCount >= limit\<close> is then false at every count. With two accesses
  already recorded today the call is granted, a third row is inserted, and \<open>remaining\<close> is
  NaN, where a limit of 2 denies with \<open>remaining = 0\<close> and inserts nothing.
\<close>

theorem checkAndRecordAccess_inherited_name:
  "getDailyLimit ''constructor'' = InheritedMember
   \<and> accessCountToday (sampleEnv FetchRejected FetchRejected (\<lambda>_. False)) ''u1'' ''constructor''
        inheritedNameStore = 2
   \<and> checkAndRecordAccess (sampleEnv FetchRejected FetchRejected (\<lambda>_. False)) ''u1''
        ''constructor'' inheritedNameStore
      = (inheritedNameStore
           \<lparr>accessLogs := accessLogs inheritedNameStore @
              [\<lparr>al_user_id = ''u1'', al_endpoint = ''constructor'',
                al_access_date = ''2024-05-01''\<rparr>],
            calls := [DbCall CountAccessLogs, DbCall InsertAccessLogs]\<rparr>,
         Inr \<lparr>granted = True, remaining = NaN\<rparr>)"
proof -
  let ?e = "sampleEnv FetchRejected FetchRejected (\<lambda>_. False)"
  have m: "''constructor'' \<in> set objectPrototypeNames" by (simp add: objectPrototypeNames_def)
  have f: "\<not> storeFails ?e CountAccessLogs" "\<not> storeFails ?e InsertAccessLogs"
    by (simp_all add: sampleEnv_def)
  have n: "accessCountToday ?e ''u1'' ''constructor'' inheritedNameStore = 2"
    by (simp add: accessCountToday_def inheritedNameStore_def sampleEnv_def)
  have c0: "calls inheritedNameStore = []" by (simp add: inheritedNameStore_def sampleStore_def)
  have d: "dateAtRecord ?e = ''2024-05-01''" by (simp add: sampleEnv_def)
  from getDailyLimit_inherited [OF m] n
    checkAndRecordAccess_inherited_limit [OF f m, of "''u1''" inheritedNameStore] c0 d
  show ?thesis by simp
qed

end
